theory Spec2Isabelle
  imports Complex_Main "HOL-Library.Extended_Nat"
begin

section \<open>otp-profile-score: data model\<close>

text \<open>
  The scorer of \<^verbatim>\<open>components/conveyal/otp-profile-score/master/index.js\<close>.
  JavaScript numbers are modelled as reals: the decimal constants of the source are the
  rationals they denote, and arithmetic is exact. Strings are byte lists and
  \<^verbatim>\<open>toLowerCase\<close> folds the ASCII letters. A field the source tests for presence
  is an \<open>option\<close>; a field whose absence makes the source throw is an \<open>option\<close>
  too, and the throw is the value \<open>Inl TypeError\<close>.
\<close>

datatype error = TypeError

subsection \<open>Module constants\<close>

definition CO2_PER_GALLON :: real where
  "CO2_PER_GALLON = 8.887"

definition CYCLING_MET :: real where
  "CYCLING_MET = 8"

definition METERS_TO_MILES :: real where
  "METERS_TO_MILES = 0.000621371"

definition SECONDS_TO_HOURS :: real where
  "SECONDS_TO_HOURS = 1 / 60 / 60"

definition WALKING_MET :: real where
  "WALKING_MET = 3.8"

definition CO2_PER_TRANSIT_TRIP :: real where
  "CO2_PER_TRANSIT_TRIP = 239000000 / 200000000"

subsection \<open>Configuration objects\<close>

text \<open>A factor is a number or a unary function (\<^verbatim>\<open>typeof f === 'function'\<close>).\<close>

datatype factor = Number real | Function "real \<Rightarrow> real"

text \<open>
  The keys of the factors object. \<open>calories\<close> and \<open>cost\<close> are also fields of an
  option, so the selectors of this record carry the suffix \<open>F\<close>.
\<close>

record factors =
  bikeParkingF :: factor
  caloriesF :: factor
  carParkingF :: factor
  co2F :: factor
  costF :: factor
  transferF :: factor

record rates =
  bikeSpeed :: real
  carParkingCost :: real
  co2PerTransitTrip :: real
  mileageRate :: real
  mpg :: real
  walkSpeed :: real
  weight :: real

text \<open>An override object: each recognised key is supplied or not.\<close>

record factors_overrides =
  bikeParkingO :: "factor option"
  caloriesO :: "factor option"
  carParkingO :: "factor option"
  co2O :: "factor option"
  costO :: "factor option"
  transferO :: "factor option"

record rates_overrides =
  bikeSpeedO :: "real option"
  carParkingCostO :: "real option"
  co2PerTransitTripO :: "real option"
  mileageRateO :: "real option"
  mpgO :: "real option"
  walkSpeedO :: "real option"
  weightO :: "real option"

record opts =
  factorsOpt :: "factors_overrides option"
  ratesOpt :: "rates_overrides option"

definition no_factors_overrides :: factors_overrides where
  "no_factors_overrides =
     \<lparr>bikeParkingO = None, caloriesO = None, carParkingO = None, co2O = None,
      costO = None, transferO = None\<rparr>"

definition no_rates_overrides :: rates_overrides where
  "no_rates_overrides =
     \<lparr>bikeSpeedO = None, carParkingCostO = None, co2PerTransitTripO = None,
      mileageRateO = None, mpgO = None, walkSpeedO = None, weightO = None\<rparr>"

definition no_opts :: opts where
  "no_opts = \<lparr>factorsOpt = None, ratesOpt = None\<rparr>"

text \<open>The object literals bound to the two module variables when the module is loaded.\<close>

definition DEFAULT_TIME_FACTORS :: factors where
  "DEFAULT_TIME_FACTORS =
     \<lparr>bikeParkingF = Number 1, caloriesF = Number (- 0.01), carParkingF = Number 5,
      co2F = Number 0.5, costF = Number 5, transferF = Number 5\<rparr>"

definition DEFAULT_RATES :: rates where
  "DEFAULT_RATES =
     \<lparr>bikeSpeed = 4.1, carParkingCost = 10, co2PerTransitTrip = CO2_PER_TRANSIT_TRIP,
      mileageRate = 0.56, mpg = 21.4, walkSpeed = 1.4, weight = 75\<rparr>"

subsection \<open>Options\<close>

record streetEdge =
  edge_mode :: "string option"
  distance :: real

record leg =
  leg_mode :: "string option"
  streetEdges :: "streetEdge list option"
  leg_time :: real

record segmentPattern =
  nTrips :: "nat option"

record stats =
  avg :: real

record segment =
  seg_mode :: "string option"
  segmentPatterns :: "segmentPattern list option"
  waitStats :: "stats option"
  rideStats :: "stats option"
  walkTime :: real
  seg_walkDistance :: real

record fare =
  peak :: "real option"

text \<open>
  One JavaScript object carries the raw fields and the fields \<^verbatim>\<open>tally\<close> and
  \<^verbatim>\<open>processOption\<close> write. The written fields hold whatever the object held
  before the call (the record is named \<open>tripOption\<close>, HOL having an \<open>option\<close> already);
  \<open>carCost\<close> and \<open>trips\<close>, which \<^verbatim>\<open>tally\<close> does not always
  assign, can be absent.
\<close>

record tripOption =
  access :: "leg list option"
  egress :: "leg list option"
  transit :: "segment list option"
  fares :: "fare option list option"
  bikeCalories :: real
  calories :: real
  cost :: real
  emissions :: real
  modes :: "string list"
  time :: real
  timeInTransit :: real
  transfers :: real
  transitCost :: real
  walkCalories :: real
  bikeDistance :: real
  driveDistance :: real
  walkDistance :: real
  carCost :: "real option"
  trips :: "enat option"
  score :: real

section \<open>Helpers\<close>

fun lowerChar :: "char \<Rightarrow> char" where
  "lowerChar (Char b0 b1 b2 b3 b4 b5 b6 b7) =
     (let n = (of_char (Char b0 b1 b2 b3 b4 b5 b6 b7) :: nat)
      in if 65 \<le> n \<and> n \<le> 90 then Char b0 b1 b2 b3 b4 True b6 b7
         else Char b0 b1 b2 b3 b4 b5 b6 b7)"

definition toLowerCase :: "string \<Rightarrow> string" where
  "toLowerCase s = map lowerChar s"

text \<open>
  The callback of the \<^verbatim>\<open>reduce\<close> in \<^verbatim>\<open>streetEdgeDistanceForMode\<close>: the closure
  variable \<^verbatim>\<open>currentMode\<close> is threaded with the accumulated distance. In
  \<^verbatim>\<open>if (step.mode)\<close> an absent mode and the empty string are falsy.
\<close>

definition edgeStep :: "string \<Rightarrow> string \<times> real \<Rightarrow> streetEdge \<Rightarrow> string \<times> real" where
  "edgeStep m acc step =
     (let currentMode = (case edge_mode step of
                           None \<Rightarrow> fst acc
                         | Some s \<Rightarrow> if s \<noteq> [] then toLowerCase s else fst acc);
          dist = (if currentMode = m then snd acc + distance step else snd acc)
      in (currentMode, dist))"

definition streetEdgeDistanceForMode :: "streetEdge list \<Rightarrow> string \<Rightarrow> real" where
  "streetEdgeDistanceForMode es m = snd (foldl (edgeStep m) (''walk'', 0) es)"

definition addStreetEdges :: "tripOption \<Rightarrow> string \<Rightarrow> streetEdge list option \<Rightarrow> tripOption" where
  "addStreetEdges o1 m se =
     (case se of
        None \<Rightarrow> o1
      | Some es \<Rightarrow>
          (let o2 = o1\<lparr>modes := modes o1 @ [m]\<rparr>
           in if m = ''car'' then
                o2\<lparr>driveDistance := driveDistance o2 + streetEdgeDistanceForMode es ''car''\<rparr>
              else if m = ''bicycle'' then
                o2\<lparr>bikeDistance := bikeDistance o2 + streetEdgeDistanceForMode es ''bicycle''\<rparr>
              else if m = ''bicycle_rent'' then
                (let o3 = o2\<lparr>modes := modes o2 @ [''walk'']\<rparr>;
                     o4 = o3\<lparr>bikeDistance :=
                               bikeDistance o3 + streetEdgeDistanceForMode es ''bicycle''\<rparr>
                 in o4\<lparr>walkDistance :=
                          walkDistance o4 + streetEdgeDistanceForMode es ''walk''\<rparr>)
              else if m = ''walk'' then
                o2\<lparr>walkDistance := walkDistance o2 + streetEdgeDistanceForMode es ''walk''\<rparr>
              else o2))"

definition caloriesBurned :: "real \<Rightarrow> real \<Rightarrow> real \<Rightarrow> real" where
  "caloriesBurned met kg hours = met * kg * hours"

definition applyFactor :: "real \<Rightarrow> factor \<Rightarrow> real" where
  "applyFactor v f = (case f of Function g \<Rightarrow> g v | Number c \<Rightarrow> c * v)"

section \<open>Tally\<close>

text \<open>The assignments under \<^verbatim>\<open>// Defaults\<close> and \<^verbatim>\<open>// Bike/Drive/Walk distances\<close>.\<close>

definition tallyDefaults :: "tripOption \<Rightarrow> tripOption" where
  "tallyDefaults o1 =
     o1\<lparr>bikeCalories := 0, calories := 0, cost := 0, emissions := 0, modes := [],
        time := 0, timeInTransit := 0, transfers := 0, transitCost := 0,
        walkCalories := 0, bikeDistance := 0, driveDistance := 0, walkDistance := 0\<rparr>"

text \<open>
  The access and the egress block: only the first leg of a non-empty array is read;
  \<^verbatim>\<open>mode.toLowerCase()\<close> throws on a leg without a mode.
\<close>

definition tallyLeg :: "leg list option \<Rightarrow> tripOption \<Rightarrow> error + tripOption" where
  "tallyLeg legs o1 =
     (case legs of
        None \<Rightarrow> Inr o1
      | Some [] \<Rightarrow> Inr o1
      | Some (l # _) \<Rightarrow>
          (case leg_mode l of
             None \<Rightarrow> Inl TypeError
           | Some m \<Rightarrow>
               (let o2 = addStreetEdges o1 (toLowerCase m) (streetEdges l)
                in Inr (o2\<lparr>time := time o2 + leg_time l\<rparr>))))"

text \<open>\<^verbatim>\<open>trips < o.trips\<close>: false when either side is not a number.\<close>

definition tripsLess :: "nat option \<Rightarrow> enat option \<Rightarrow> bool" where
  "tripsLess a b = (case (a, b) of (Some n, Some t) \<Rightarrow> enat n < t | _ \<Rightarrow> False)"

text \<open>The callback of \<^verbatim>\<open>o.transit.forEach\<close>.\<close>

definition tallySegment :: "rates \<Rightarrow> tripOption \<Rightarrow> segment \<Rightarrow> error + tripOption" where
  "tallySegment r o1 seg =
     (case seg_mode seg of
        None \<Rightarrow> Inl TypeError
      | Some m \<Rightarrow>
          (let o2 = o1\<lparr>modes := modes o1 @ [toLowerCase m]\<rparr>
           in case (case segmentPatterns seg of
                      None \<Rightarrow> Inr (Some 0)
                    | Some [] \<Rightarrow> Inl TypeError
                    | Some (p # _) \<Rightarrow> Inr (nTrips p)) of
                Inl e \<Rightarrow> Inl e
              | Inr tr \<Rightarrow>
                  (let o3 = (if tripsLess tr (trips o2)
                             then o2\<lparr>trips := map_option enat tr\<rparr> else o2)
                   in case (waitStats seg, rideStats seg) of
                        (Some w, Some rd) \<Rightarrow>
                          (let tt = avg w + avg rd;
                               o4 = o3\<lparr>timeInTransit := timeInTransit o3 + tt\<rparr>;
                               o5 = o4\<lparr>time := time o4 + (walkTime seg + tt)\<rparr>;
                               o6 = o5\<lparr>walkDistance := walkDistance o5 + seg_walkDistance seg\<rparr>
                           in Inr (o6\<lparr>emissions := emissions o6 + co2PerTransitTrip r\<rparr>))
                      | _ \<Rightarrow> Inl TypeError)))"

text \<open>\<^verbatim>\<open>forEach\<close> with a callback that can throw: the first throw ends the loop.\<close>

fun forEachE :: "('s \<Rightarrow> 'a \<Rightarrow> error + 's) \<Rightarrow> 's \<Rightarrow> 'a list \<Rightarrow> error + 's" where
  "forEachE f s [] = Inr s"
| "forEachE f s (x # xs) = (case f s x of Inl e \<Rightarrow> Inl e | Inr s' \<Rightarrow> forEachE f s' xs)"

text \<open>\<^verbatim>\<open>if (fare && fare.peak) o.transitCost += fare.peak\<close>: a zero peak is falsy.\<close>

definition addFare :: "tripOption \<Rightarrow> fare option \<Rightarrow> tripOption" where
  "addFare o1 f =
     (case f of
        None \<Rightarrow> o1
      | Some fr \<Rightarrow>
          (case peak fr of
             None \<Rightarrow> o1
           | Some p \<Rightarrow> if p \<noteq> 0 then o1\<lparr>transitCost := transitCost o1 + p\<rparr> else o1))"

definition tallyTransit :: "rates \<Rightarrow> tripOption \<Rightarrow> error + tripOption" where
  "tallyTransit r o1 =
     (case transit o1 of
        None \<Rightarrow> Inr o1
      | Some [] \<Rightarrow> Inr o1
      | Some (sg # sgs) \<Rightarrow>
          (let o2 = o1\<lparr>transfers := real (length (sg # sgs)) - 1, transitCost := 0,
                       trips := Some \<infinity>\<rparr>
           in case forEachE (tallySegment r) o2 (sg # sgs) of
                Inl e \<Rightarrow> Inl e
              | Inr o3 \<Rightarrow>
                  (let o4 = (case fares o3 of None \<Rightarrow> o3 | Some fs \<Rightarrow> foldl addFare o3 fs)
                   in Inr (o4\<lparr>cost := cost o4 + transitCost o4\<rparr>))))"

text \<open>\<^verbatim>\<open>// Set the walking calories burned\<close>\<close>

definition tallyWalkCalories :: "rates \<Rightarrow> tripOption \<Rightarrow> tripOption" where
  "tallyWalkCalories r o1 =
     (if ''walk'' \<in> set (modes o1)
      then o1\<lparr>walkCalories :=
               caloriesBurned WALKING_MET (weight r)
                 ((walkDistance o1 / walkSpeed r) * SECONDS_TO_HOURS)\<rparr>
      else o1)"

text \<open>\<^verbatim>\<open>// Set the biking calories burned\<close>\<close>

definition tallyBikeCalories :: "rates \<Rightarrow> tripOption \<Rightarrow> tripOption" where
  "tallyBikeCalories r o1 =
     (if ''bicycle'' \<in> set (modes o1) \<or> ''bicycle_rent'' \<in> set (modes o1)
      then o1\<lparr>bikeCalories :=
               caloriesBurned CYCLING_MET (weight r)
                 ((bikeDistance o1 / bikeSpeed r) * SECONDS_TO_HOURS)\<rparr>
      else o1)"

text \<open>\<^verbatim>\<open>// Set the parking costs\<close>\<close>

definition tallyCar :: "rates \<Rightarrow> tripOption \<Rightarrow> tripOption" where
  "tallyCar r o1 =
     (if ''car'' \<in> set (modes o1)
      then (let c = mileageRate r * (driveDistance o1 * METERS_TO_MILES) + carParkingCost r;
                o2 = o1\<lparr>carCost := Some c\<rparr>;
                o3 = o2\<lparr>cost := cost o2 + c\<rparr>
            in o3\<lparr>emissions := driveDistance o3 / mpg r * CO2_PER_GALLON\<rparr>)
      else o1)"

text \<open>
  \<^verbatim>\<open>// unique modes only\<close>: the callback of the \<^verbatim>\<open>reduce\<close>, and the
  \<^verbatim>\<open>reduce\<close> from the empty array.
\<close>

definition uniqueStep :: "string list \<Rightarrow> string \<Rightarrow> string list" where
  "uniqueStep ms m = (if m \<notin> set ms then ms @ [m] else ms)"

definition uniqueModes :: "string list \<Rightarrow> string list" where
  "uniqueModes ms = foldl uniqueStep [] ms"

text \<open>Everything of \<^verbatim>\<open>tally\<close> above \<^verbatim>\<open>// unique modes only\<close>.\<close>

definition tallyAccumulate :: "rates \<Rightarrow> tripOption \<Rightarrow> error + tripOption" where
  "tallyAccumulate r o0 =
     (let o1 = tallyDefaults o0
      in case tallyLeg (access o1) o1 of
           Inl e \<Rightarrow> Inl e
         | Inr o2 \<Rightarrow>
             (case tallyLeg (egress o2) o2 of
                Inl e \<Rightarrow> Inl e
              | Inr o3 \<Rightarrow>
                  (case tallyTransit r o3 of
                     Inl e \<Rightarrow> Inl e
                   | Inr o4 \<Rightarrow>
                       Inr (tallyCar r (tallyBikeCalories r (tallyWalkCalories r o4))))))"

text \<open>The last two statements of \<^verbatim>\<open>tally\<close>.\<close>

definition tallyFinish :: "tripOption \<Rightarrow> tripOption" where
  "tallyFinish o1 =
     (let o2 = o1\<lparr>modes := uniqueModes (modes o1)\<rparr>
      in o2\<lparr>calories := bikeCalories o2 + walkCalories o2\<rparr>)"

definition tally :: "rates \<Rightarrow> tripOption \<Rightarrow> error + tripOption" where
  "tally r o0 =
     (case tallyAccumulate r o0 of Inl e \<Rightarrow> Inl e | Inr o1 \<Rightarrow> Inr (tallyFinish o1))"

section \<open>Score\<close>

text \<open>
  The callback of \<^verbatim>\<open>o.modes.forEach\<close> in \<^verbatim>\<open>score\<close>; the accumulator is the
  pair of the local variables \<^verbatim>\<open>score\<close> and \<^verbatim>\<open>totalCalories\<close>.
\<close>

definition scoreStep :: "factors \<Rightarrow> tripOption \<Rightarrow> real \<times> real \<Rightarrow> string \<Rightarrow> real \<times> real" where
  "scoreStep fs o1 acc mode =
     (if mode = ''car'' then
        (fst acc + applyFactor 1 (carParkingF fs) + applyFactor (emissions o1) (co2F fs),
         snd acc)
      else if mode = ''bicycle'' \<or> mode = ''bicycle_rent'' then
        (fst acc + applyFactor 1 (bikeParkingF fs), snd acc + bikeCalories o1)
      else if mode = ''walk'' then
        (fst acc, snd acc + walkCalories o1)
      else acc)"

definition scoreModes :: "factors \<Rightarrow> tripOption \<Rightarrow> real \<times> real" where
  "scoreModes fs o1 = foldl (scoreStep fs o1) (time o1 / 60, 0) (modes o1)"

text \<open>The value of the local \<^verbatim>\<open>totalCalories\<close> after the loop.\<close>

definition totalCalories :: "factors \<Rightarrow> tripOption \<Rightarrow> real" where
  "totalCalories fs o1 = snd (scoreModes fs o1)"

text \<open>
  \<^verbatim>\<open>ProfileScore.prototype.score\<close> (\<open>score\<close> itself names the field it is stored in).
\<close>

definition scoreOf :: "factors \<Rightarrow> tripOption \<Rightarrow> real" where
  "scoreOf fs o1 =
     fst (scoreModes fs o1)
       + applyFactor (transfers o1) (transferF fs)
       + applyFactor (cost o1) (costF fs)
       + applyFactor (totalCalories fs o1) (caloriesF fs)"

section \<open>Processing\<close>

definition processOption :: "factors \<Rightarrow> rates \<Rightarrow> tripOption \<Rightarrow> error + tripOption" where
  "processOption fs r o0 =
     (case tally r o0 of Inl e \<Rightarrow> Inl e | Inr o1 \<Rightarrow> Inr (o1\<lparr>score := scoreOf fs o1\<rparr>))"

text \<open>
  \<^verbatim>\<open>clone\<close> makes an independent deep copy; on values it is the identity. The three
  nested \<^verbatim>\<open>forEach\<close> callbacks of \<^verbatim>\<open>processOptions\<close> thread the array
  \<^verbatim>\<open>processed\<close>.
\<close>

definition egressStep ::
  "factors \<Rightarrow> rates \<Rightarrow> tripOption \<Rightarrow> leg \<Rightarrow> tripOption list \<Rightarrow> leg \<Rightarrow> error + tripOption list" where
  "egressStep fs r o1 a processed e =
     (case processOption fs r (o1\<lparr>access := Some [a], egress := Some [e]\<rparr>) of
        Inl err \<Rightarrow> Inl err
      | Inr p \<Rightarrow> Inr (processed @ [p]))"

definition accessStep ::
  "factors \<Rightarrow> rates \<Rightarrow> tripOption \<Rightarrow> tripOption list \<Rightarrow> leg \<Rightarrow> error + tripOption list" where
  "accessStep fs r o1 processed a =
     (case egress o1 of
        Some (e # es) \<Rightarrow> forEachE (egressStep fs r o1 a) processed (e # es)
      | _ \<Rightarrow>
          (case processOption fs r (o1\<lparr>access := Some [a]\<rparr>) of
             Inl err \<Rightarrow> Inl err
           | Inr p \<Rightarrow> Inr (processed @ [p])))"

definition optionStep ::
  "factors \<Rightarrow> rates \<Rightarrow> tripOption list \<Rightarrow> tripOption \<Rightarrow> error + tripOption list" where
  "optionStep fs r processed o1 =
     (case access o1 of
        None \<Rightarrow> Inr processed
      | Some as \<Rightarrow> forEachE (accessStep fs r o1) processed as)"

text \<open>The array \<^verbatim>\<open>processed\<close> when \<^verbatim>\<open>options.forEach\<close> has returned.\<close>

definition expandOptions :: "factors \<Rightarrow> rates \<Rightarrow> tripOption list \<Rightarrow> error + tripOption list" where
  "expandOptions fs r os = forEachE (optionStep fs r) [] os"

text \<open>
  \<^verbatim>\<open>Array.prototype.sort\<close> with a comparison function, as ECMAScript (2019 and
  later) specifies it: a stable sort, here by insertion. \<open>x\<close> goes before the first
  \<open>y\<close> that the comparison does not put before it.
\<close>

fun insertBy :: "('a \<Rightarrow> 'a \<Rightarrow> real) \<Rightarrow> 'a \<Rightarrow> 'a list \<Rightarrow> 'a list" where
  "insertBy cmp x [] = [x]"
| "insertBy cmp x (y # ys) = (if cmp x y \<le> 0 then x # y # ys else y # insertBy cmp x ys)"

definition sortBy :: "('a \<Rightarrow> 'a \<Rightarrow> real) \<Rightarrow> 'a list \<Rightarrow> 'a list" where
  "sortBy cmp xs = foldr (insertBy cmp) xs []"

definition compareScore :: "tripOption \<Rightarrow> tripOption \<Rightarrow> real" where
  "compareScore a b = score a - score b"

definition processOptions :: "factors \<Rightarrow> rates \<Rightarrow> tripOption list \<Rightarrow> error + tripOption list" where
  "processOptions fs r os =
     (case expandOptions fs r os of
        Inl e \<Rightarrow> Inl e
      | Inr processed \<Rightarrow> Inr (sortBy compareScore processed))"

section \<open>Construction\<close>

text \<open>
  \<^verbatim>\<open>merge(a, b)\<close> assigns into the object \<open>a\<close> refers to and returns that
  reference, so the objects live in a store. The module variables
  \<^verbatim>\<open>DEFAULT_TIME_FACTORS\<close> and \<^verbatim>\<open>DEFAULT_RATES\<close> hold the references
  \<open>0\<close> and \<open>1\<close>; \<open>moduleHeap\<close> is the store when the module has been loaded.
\<close>

datatype obj = FactorsObj factors | RatesObj rates

type_synonym heap = "nat \<Rightarrow> obj option"

definition DEFAULT_TIME_FACTORS_ref :: nat where
  "DEFAULT_TIME_FACTORS_ref = 0"

definition DEFAULT_RATES_ref :: nat where
  "DEFAULT_RATES_ref = 1"

definition moduleHeap :: heap where
  "moduleHeap =
     (\<lambda>a. if a = DEFAULT_TIME_FACTORS_ref then Some (FactorsObj DEFAULT_TIME_FACTORS)
          else if a = DEFAULT_RATES_ref then Some (RatesObj DEFAULT_RATES)
          else None)"

text \<open>\<^verbatim>\<open>for (var k in b) a[k] = b[k]\<close>, key by key.\<close>

definition assignFactors :: "factors \<Rightarrow> factors_overrides \<Rightarrow> factors" where
  "assignFactors a b =
     \<lparr>bikeParkingF = (case bikeParkingO b of None \<Rightarrow> bikeParkingF a | Some v \<Rightarrow> v),
      caloriesF = (case caloriesO b of None \<Rightarrow> caloriesF a | Some v \<Rightarrow> v),
      carParkingF = (case carParkingO b of None \<Rightarrow> carParkingF a | Some v \<Rightarrow> v),
      co2F = (case co2O b of None \<Rightarrow> co2F a | Some v \<Rightarrow> v),
      costF = (case costO b of None \<Rightarrow> costF a | Some v \<Rightarrow> v),
      transferF = (case transferO b of None \<Rightarrow> transferF a | Some v \<Rightarrow> v)\<rparr>"

definition assignRates :: "rates \<Rightarrow> rates_overrides \<Rightarrow> rates" where
  "assignRates a b =
     \<lparr>bikeSpeed = (case bikeSpeedO b of None \<Rightarrow> bikeSpeed a | Some v \<Rightarrow> v),
      carParkingCost = (case carParkingCostO b of None \<Rightarrow> carParkingCost a | Some v \<Rightarrow> v),
      co2PerTransitTrip =
        (case co2PerTransitTripO b of None \<Rightarrow> co2PerTransitTrip a | Some v \<Rightarrow> v),
      mileageRate = (case mileageRateO b of None \<Rightarrow> mileageRate a | Some v \<Rightarrow> v),
      mpg = (case mpgO b of None \<Rightarrow> mpg a | Some v \<Rightarrow> v),
      walkSpeed = (case walkSpeedO b of None \<Rightarrow> walkSpeed a | Some v \<Rightarrow> v),
      weight = (case weightO b of None \<Rightarrow> weight a | Some v \<Rightarrow> v)\<rparr>"

text \<open>\<^verbatim>\<open>merge\<close> at the two types it is called at: the store after the loop, and \<open>a\<close>.\<close>

definition mergeFactors :: "heap \<Rightarrow> nat \<Rightarrow> factors_overrides \<Rightarrow> heap \<times> nat" where
  "mergeFactors h a b =
     (case h a of
        Some (FactorsObj f) \<Rightarrow> (h(a \<mapsto> FactorsObj (assignFactors f b)), a)
      | _ \<Rightarrow> (h, a))"

definition mergeRates :: "heap \<Rightarrow> nat \<Rightarrow> rates_overrides \<Rightarrow> heap \<times> nat" where
  "mergeRates h a b =
     (case h a of
        Some (RatesObj rt) \<Rightarrow> (h(a \<mapsto> RatesObj (assignRates rt b)), a)
      | _ \<Rightarrow> (h, a))"

text \<open>An instance holds the two references the constructor stores in \<^verbatim>\<open>this\<close>.\<close>

record profileScore =
  factorsRef :: nat
  ratesRef :: nat

definition ProfileScore :: "heap \<Rightarrow> opts option \<Rightarrow> heap \<times> profileScore" where
  "ProfileScore h opts0 =
     (let op = (case opts0 of None \<Rightarrow> no_opts | Some x \<Rightarrow> x);
          (h1, fref) = mergeFactors h DEFAULT_TIME_FACTORS_ref
                         (case factorsOpt op of None \<Rightarrow> no_factors_overrides | Some b \<Rightarrow> b);
          (h2, rref) = mergeRates h1 DEFAULT_RATES_ref
                         (case ratesOpt op of None \<Rightarrow> no_rates_overrides | Some b \<Rightarrow> b)
      in (h2, \<lparr>factorsRef = fref, ratesRef = rref\<rparr>))"

text \<open>Reading \<^verbatim>\<open>this.factors\<close> and \<^verbatim>\<open>this.rates\<close> in a store.\<close>

definition factorsOf :: "heap \<Rightarrow> profileScore \<Rightarrow> factors option" where
  "factorsOf h s = (case h (factorsRef s) of Some (FactorsObj f) \<Rightarrow> Some f | _ \<Rightarrow> None)"

definition ratesOf :: "heap \<Rightarrow> profileScore \<Rightarrow> rates option" where
  "ratesOf h s = (case h (ratesRef s) of Some (RatesObj rt) \<Rightarrow> Some rt | _ \<Rightarrow> None)"

section \<open>Specification-side notions\<close>

text \<open>The index of the first occurrence of a mode in a list (its length when there is none).\<close>

definition firstOccurrence :: "string list \<Rightarrow> string \<Rightarrow> nat" where
  "firstOccurrence xs m = length (takeWhile (\<lambda>x. x \<noteq> m) xs)"

text \<open>
  The current sub-mode at each edge of a leg, in the words of the specification: the mode
  the most recent edge with a mode declared, and \<open>cur\<close> (\<open>walk\<close> at the start) until
  an edge declares one. Then the sum of the distances of the edges whose current sub-mode
  is \<open>m\<close>.
\<close>

fun currentModes :: "string \<Rightarrow> streetEdge list \<Rightarrow> string list" where
  "currentModes cur [] = []"
| "currentModes cur (e # es) =
     (let c = (case edge_mode e of
                 None \<Rightarrow> cur
               | Some s \<Rightarrow> if s \<noteq> [] then toLowerCase s else cur)
      in c # currentModes c es)"

definition distanceInMode :: "streetEdge list \<Rightarrow> string \<Rightarrow> real" where
  "distanceInMode es m =
     sum_list [distance e. (e, c) \<leftarrow> zip es (currentModes ''walk'' es), c = m]"

text \<open>What a leg with street edges pushes onto the modes.\<close>

definition pushedModes :: "string \<Rightarrow> string list" where
  "pushedModes m = (if m = ''bicycle_rent'' then [m, ''walk''] else [m])"

text \<open>
  The number of results the claim on \<^verbatim>\<open>processOptions\<close> gives an option, in its words.
\<close>

definition branchCount :: "tripOption \<Rightarrow> nat" where
  "branchCount o1 =
     (case access o1 of
        None \<Rightarrow> 0
      | Some [] \<Rightarrow> 0
      | Some as \<Rightarrow>
          (case egress o1 of
             None \<Rightarrow> length as
           | Some [] \<Rightarrow> length as
           | Some es \<Rightarrow> length as * length es))"

text \<open>The fields of an option that \<^verbatim>\<open>tally\<close> reads and never writes, and the stored score.\<close>

definition rawFields ::
  "tripOption \<Rightarrow> leg list option \<times> leg list option \<times> segment list option \<times> fare option list option \<times> real" where
  "rawFields o1 = (access o1, egress o1, transit o1, fares o1, score o1)"

text \<open>
  Well-formed input: every leg has a mode; every transit segment has a mode, wait and ride
  statistics, and no empty \<open>segmentPatterns\<close> array. These are the fields whose absence
  makes the source throw.
\<close>

definition legOk :: "leg \<Rightarrow> bool" where
  "legOk l = (leg_mode l \<noteq> None)"

definition segmentOk :: "segment \<Rightarrow> bool" where
  "segmentOk sg =
     (seg_mode sg \<noteq> None \<and> segmentPatterns sg \<noteq> Some [] \<and> waitStats sg \<noteq> None
      \<and> rideStats sg \<noteq> None)"

definition optionOk :: "tripOption \<Rightarrow> bool" where
  "optionOk o1 =
     (list_all legOk (case access o1 of None \<Rightarrow> [] | Some as \<Rightarrow> as)
      \<and> list_all legOk (case egress o1 of None \<Rightarrow> [] | Some es \<Rightarrow> es)
      \<and> list_all segmentOk (case transit o1 of None \<Rightarrow> [] | Some sgs \<Rightarrow> sgs))"

section \<open>Example options\<close>

text \<open>
  An option as the profiler returns it carries none of the written fields; the zeros stand
  for them, and \<^verbatim>\<open>tally\<close> overwrites them before it reads them.
\<close>

definition rawOption ::
  "leg list option \<Rightarrow> leg list option \<Rightarrow> segment list option \<Rightarrow> fare option list option
     \<Rightarrow> tripOption" where
  "rawOption a e t f =
     \<lparr>access = a, egress = e, transit = t, fares = f, bikeCalories = 0, calories = 0,
      cost = 0, emissions = 0, modes = [], time = 0, timeInTransit = 0, transfers = 0,
      transitCost = 0, walkCalories = 0, bikeDistance = 0, driveDistance = 0,
      walkDistance = 0, carCost = None, trips = None, score = 0\<rparr>"

definition busSegment :: segment where
  "busSegment =
     \<lparr>seg_mode = Some ''BUS'', segmentPatterns = Some [\<lparr>nTrips = Some 4\<rparr>],
      waitStats = Some \<lparr>avg = 300\<rparr>, rideStats = Some \<lparr>avg = 900\<rparr>, walkTime = 120,
      seg_walkDistance = 150\<rparr>"

text \<open>Drive to a bus, change to the subway, walk from there; two fares.\<close>

definition carTransit :: tripOption where
  "carTransit =
     rawOption
       (Some [\<lparr>leg_mode = Some ''CAR'',
               streetEdges = Some [\<lparr>edge_mode = Some ''CAR'', distance = 10000\<rparr>],
               leg_time = 600\<rparr>])
       (Some [\<lparr>leg_mode = Some ''WALK'',
               streetEdges = Some [\<lparr>edge_mode = None, distance = 200\<rparr>],
               leg_time = 180\<rparr>])
       (Some [busSegment, busSegment\<lparr>seg_mode := Some ''SUBWAY'', segmentPatterns := None\<rparr>])
       (Some [Some \<lparr>peak = Some 1.75\<rparr>, None, Some \<lparr>peak = None\<rparr>, Some \<lparr>peak = Some 2\<rparr>])"

definition carTransitTallied :: tripOption where
  "carTransitTallied =
     carTransit\<lparr>calories := 2375 / 84, cost := 21537097 / 1250000, emissions := 444350 / 107,
       modes := [''car'', ''walk'', ''bus'', ''subway''], time := 3420, timeInTransit := 2400,
       transfers := 1, transitCost := 15 / 4, walkCalories := 2375 / 84,
       driveDistance := 10000, walkDistance := 500, carCost := Some (16849597 / 1250000),
       trips := Some (enat 0)\<rparr>"

text \<open>Legs without street edges, which leave the modes empty.\<close>

definition walkLeg :: "real \<Rightarrow> leg" where
  "walkLeg t = \<lparr>leg_mode = Some ''walk'', streetEdges = None, leg_time = t\<rparr>"

definition bikeLeg :: "real \<Rightarrow> leg" where
  "bikeLeg t = \<lparr>leg_mode = Some ''bicycle'', streetEdges = None, leg_time = t\<rparr>"

text \<open>
  Two access alternatives and one egress alternative (Scenario B); an option without
  \<open>access\<close>; an option with an empty \<open>egress\<close>.
\<close>

definition twoByOne :: tripOption where
  "twoByOne = rawOption (Some [walkLeg 120, bikeLeg 120]) (Some [walkLeg 60]) None None"

definition egressOnly :: tripOption where
  "egressOnly = rawOption None (Some [walkLeg 60]) (Some [busSegment]) None"

definition quickWalk :: tripOption where
  "quickWalk = rawOption (Some [walkLeg 60]) (Some []) None None"

definition exampleOptions :: "tripOption list" where
  "exampleOptions = [twoByOne, egressOnly, quickWalk]"

text \<open>The branches of \<open>exampleOptions\<close> in the order they are pushed.\<close>

definition rankedOptions :: "tripOption list" where
  "rankedOptions =
     [(rawOption (Some [walkLeg 120]) (Some [walkLeg 60]) None None)\<lparr>time := 180, score := 3\<rparr>,
      (rawOption (Some [bikeLeg 120]) (Some [walkLeg 60]) None None)\<lparr>time := 180, score := 3\<rparr>,
      (rawOption (Some [walkLeg 60]) (Some []) None None)\<lparr>time := 60, score := 1\<rparr>]"

text \<open>A rented bike to a bus, a second bus, a walk: \<open>walk\<close> and \<open>bus\<close> are pushed twice.\<close>

definition rentWalkBus :: tripOption where
  "rentWalkBus =
     rawOption
       (Some [\<lparr>leg_mode = Some ''BICYCLE_RENT'',
               streetEdges = Some [\<lparr>edge_mode = Some ''BICYCLE'', distance = 1000\<rparr>,
                                   \<lparr>edge_mode = Some ''WALK'', distance = 100\<rparr>],
               leg_time = 400\<rparr>])
       (Some [\<lparr>leg_mode = Some ''WALK'',
               streetEdges = Some [\<lparr>edge_mode = None, distance = 200\<rparr>],
               leg_time = 180\<rparr>])
       (Some [busSegment, busSegment])
       None"

definition rentWalkBusAccumulated :: tripOption where
  "rentWalkBusAccumulated =
     rentWalkBus\<lparr>bikeCalories := 5000 / 123, emissions := 239 / 100,
       modes := [''bicycle_rent'', ''walk'', ''walk'', ''bus'', ''bus''], time := 3220,
       timeInTransit := 2400, transfers := 1, walkCalories := 475 / 14, bikeDistance := 1000,
       walkDistance := 600, trips := Some (enat 4)\<rparr>"

text \<open>A ride on an own bike to the stop and on a rented bike from it.\<close>

definition bikeBoth :: tripOption where
  "bikeBoth =
     rawOption
       (Some [\<lparr>leg_mode = Some ''BICYCLE'',
               streetEdges = Some [\<lparr>edge_mode = Some ''BICYCLE'', distance = 1000\<rparr>],
               leg_time = 300\<rparr>])
       (Some [\<lparr>leg_mode = Some ''BICYCLE_RENT'',
               streetEdges = Some [\<lparr>edge_mode = Some ''BICYCLE'', distance = 1000\<rparr>,
                                   \<lparr>edge_mode = Some ''WALK'', distance = 100\<rparr>],
               leg_time = 300\<rparr>])
       None None"

definition bikeBothTallied :: tripOption where
  "bikeBothTallied =
     bikeBoth\<lparr>bikeCalories := 10000 / 123, calories := 99825 / 1148,
       modes := [''bicycle'', ''bicycle_rent'', ''walk''], time := 600,
       walkCalories := 475 / 84, bikeDistance := 2000, walkDistance := 100\<rparr>"

text \<open>A walk of 360 seconds whose leg has no \<open>streetEdges\<close>.\<close>

definition walkNoEdges :: tripOption where
  "walkNoEdges = rawOption (Some [walkLeg 360]) None None None"

definition walkNoEdgesTallied :: tripOption where
  "walkNoEdgesTallied = walkNoEdges\<lparr>time := 360\<rparr>"

text \<open>
  \<^verbatim>\<open>new ProfileScore({factors: {cost: 0}})\<close> in a freshly loaded module, then
  \<^verbatim>\<open>new ProfileScore()\<close>.
\<close>

definition costFree :: opts where
  "costFree =
     \<lparr>factorsOpt = Some (no_factors_overrides\<lparr>costO := Some (Number 0)\<rparr>), ratesOpt = None\<rparr>"

definition firstScorer :: "heap \<times> profileScore" where
  "firstScorer = ProfileScore moduleHeap (Some costFree)"

definition secondScorer :: "heap \<times> profileScore" where
  "secondScorer = ProfileScore (fst firstScorer) None"

text \<open>A walk whose leg has an empty \<open>streetEdges\<close> array.\<close>

definition emptyEdgesLeg :: leg where
  "emptyEdgesLeg = \<lparr>leg_mode = Some ''WALK'', streetEdges = Some [], leg_time = 360\<rparr>"

definition walkEmptyEdges :: tripOption where
  "walkEmptyEdges = rawOption (Some [emptyEdgesLeg]) None None None"

text \<open>Scenario C: a rented bike, ridden for 1000 m and pushed for 100 m.\<close>

definition scenarioC :: tripOption where
  "scenarioC =
     rawOption
       (Some [\<lparr>leg_mode = Some ''bicycle_rent'',
               streetEdges = Some [\<lparr>edge_mode = Some ''bicycle'', distance = 1000\<rparr>,
                                   \<lparr>edge_mode = Some ''walk'', distance = 100\<rparr>],
               leg_time = 300\<rparr>])
       None None None"

text \<open>
  An object without legs that carries numbers from an earlier life, a car cost among them.
\<close>

definition staleEmpty :: tripOption where
  "staleEmpty =
     (rawOption None None None None)\<lparr>cost := 7, modes := [''car''], time := 99,
        driveDistance := 5000, carCost := Some 12\<rparr>"

definition staleEmptyTallied :: tripOption where
  "staleEmptyTallied = (rawOption None None None None)\<lparr>carCost := Some 12\<rparr>"

section \<open>Properties\<close>

lemmas tally_defs = tally_def tallyAccumulate_def tallyDefaults_def tallyLeg_def
  addStreetEdges_def streetEdgeDistanceForMode_def edgeStep_def toLowerCase_def
  tallyTransit_def tallyWalkCalories_def tallyBikeCalories_def tallyCar_def tallyFinish_def
  uniqueModes_def uniqueStep_def caloriesBurned_def tallySegment_def tripsLess_def addFare_def

lemmas const_defs = DEFAULT_RATES_def DEFAULT_TIME_FACTORS_def CO2_PER_GALLON_def
  CYCLING_MET_def METERS_TO_MILES_def SECONDS_TO_HOURS_def WALKING_MET_def
  CO2_PER_TRANSIT_TRIP_def

subsection \<open>Loops\<close>

lemma forEachE_length:
  assumes step: "\<And>s x s'. f s x = Inr s' \<Longrightarrow> length s' = length s + g x"
    and run: "forEachE f s xs = Inr s'"
  shows "length s' = length s + sum_list (map g xs)"
  using run
proof (induction xs arbitrary: s)
  case Nil
  then show ?case by simp
next
  case (Cons x xs)
  then show ?case by (auto split: sum.splits dest!: step)
qed

lemma forEachE_invariant:
  assumes step: "\<And>s x s'. f s x = Inr s' \<Longrightarrow> P s \<Longrightarrow> P s'"
    and run: "forEachE f s xs = Inr s'" and start: "P s"
  shows "P s'"
  using run start
proof (induction xs arbitrary: s)
  case Nil
  then show ?case by simp
next
  case (Cons x xs)
  then show ?case by (auto split: sum.splits dest: step)
qed

lemma forEachE_frame:
  assumes step: "\<And>s x. f (g s) x = map_sum id g (f s x)"
  shows "forEachE f (g s) xs = map_sum id g (forEachE f s xs)"
proof (induction xs arbitrary: s)
  case Nil
  show ?case by simp
next
  case (Cons x xs)
  show ?case by (cases "f s x") (simp_all add: step Cons)
qed

lemma forEachE_returns:
  assumes "\<And>s x. x \<in> set xs \<Longrightarrow> \<exists>s'. f s x = Inr s'"
  shows "\<exists>s'. forEachE f s xs = Inr s'"
  using assms
proof (induction xs arbitrary: s)
  case Nil
  show ?case by simp
next
  case (Cons x xs)
  from Cons.prems [of x s] obtain s1 where "f s x = Inr s1"
    by auto
  moreover from Cons.IH [of s1] Cons.prems obtain s' where "forEachE f s1 xs = Inr s'"
    by auto
  ultimately show ?case by simp
qed

subsection \<open>The de-duplication of modes\<close>

lemma uniqueModes_snoc: "uniqueModes (xs @ [x]) = uniqueStep (uniqueModes xs) x"
  by (simp add: uniqueModes_def)

lemma set_uniqueModes: "set (uniqueModes xs) = set xs"
  by (induction xs rule: rev_induct) (auto simp: uniqueModes_snoc uniqueStep_def uniqueModes_def)

lemma distinct_uniqueModes: "distinct (uniqueModes xs)"
  by (induction xs rule: rev_induct) (auto simp: uniqueModes_snoc uniqueStep_def uniqueModes_def)

lemma firstOccurrence_less: "m \<in> set xs \<Longrightarrow> firstOccurrence xs m < length xs"
  unfolding firstOccurrence_def by (induction xs) auto

lemma firstOccurrence_snoc_old: "m \<in> set xs \<Longrightarrow> firstOccurrence (xs @ [x]) m = firstOccurrence xs m"
  unfolding firstOccurrence_def by (induction xs) auto

lemma firstOccurrence_snoc_new: "x \<notin> set xs \<Longrightarrow> firstOccurrence (xs @ [x]) x = length xs"
  unfolding firstOccurrence_def by (induction xs) auto

lemma uniqueModes_order: "sorted_wrt (<) (map (firstOccurrence xs) (uniqueModes xs))"
proof (induction xs rule: rev_induct)
  case Nil
  show ?case by (simp add: uniqueModes_def)
next
  case (snoc x xs)
  have same: "map (firstOccurrence (xs @ [x])) (uniqueModes xs) = map (firstOccurrence xs) (uniqueModes xs)"
    by (rule map_cong) (simp_all add: set_uniqueModes firstOccurrence_snoc_old)
  have old: "sorted_wrt (<) (map (firstOccurrence (xs @ [x])) (uniqueModes xs))"
    unfolding same by (rule snoc.IH)
  show ?case
  proof (cases "x \<in> set xs")
    case True
    then show ?thesis using old
      by (simp add: uniqueModes_snoc uniqueStep_def set_uniqueModes)
  next
    case False
    have "firstOccurrence (xs @ [x]) m < length xs" if "m \<in> set xs" for m
      using that by (simp add: firstOccurrence_snoc_old firstOccurrence_less)
    then show ?thesis using False old
      by (simp add: uniqueModes_snoc uniqueStep_def set_uniqueModes sorted_wrt_append
          firstOccurrence_snoc_new)
  qed
qed

subsection \<open>Street edges\<close>

lemma edge_fold:
  "snd (foldl (edgeStep m) (cur, acc) es)
     = acc + sum_list [distance e. (e, c) \<leftarrow> zip es (currentModes cur es), c = m]"
  by (induction es arbitrary: cur acc) (simp_all add: edgeStep_def Let_def split: option.splits)

lemma streetEdgeDistanceForMode_spec: "streetEdgeDistanceForMode es m = distanceInMode es m"
  by (simp add: streetEdgeDistanceForMode_def distanceInMode_def edge_fold)

subsection \<open>The stages of a tally\<close>

lemma tally_finish:
  "tally r o0 = Inr t \<Longrightarrow> \<exists>s. tallyAccumulate r o0 = Inr s \<and> t = tallyFinish s"
  by (auto simp: tally_def split: sum.splits)

lemma tallyAccumulate_car: "tallyAccumulate r o0 = Inr s \<Longrightarrow> \<exists>s'. s = tallyCar r s'"
  by (auto simp: tallyAccumulate_def Let_def split: sum.splits)

lemma tallyCar_emissions:
  "''car'' \<in> set (modes (tallyCar r s)) \<Longrightarrow>
     emissions (tallyCar r s) = driveDistance (tallyCar r s) / mpg r * CO2_PER_GALLON"
  by (simp add: tallyCar_def Let_def split: if_splits)

lemma tallyFinish_fields:
  "modes (tallyFinish s) = uniqueModes (modes s)"
  "emissions (tallyFinish s) = emissions s"
  "driveDistance (tallyFinish s) = driveDistance s"
  by (simp_all add: tallyFinish_def Let_def)

lemma foldl_addFare_keeps:
  "rawFields (foldl addFare s fs) = rawFields s \<and> modes (foldl addFare s fs) = modes s
   \<and> carCost (foldl addFare s fs) = carCost s \<and> trips (foldl addFare s fs) = trips s
   \<and> driveDistance (foldl addFare s fs) = driveDistance s"
  by (induction fs arbitrary: s) (simp_all add: addFare_def rawFields_def split: option.splits)

lemma tallyLeg_keeps:
  "tallyLeg legs s = Inr s' \<Longrightarrow>
     rawFields s' = rawFields s \<and> carCost s' = carCost s \<and> trips s' = trips s"
  by (auto simp: tallyLeg_def addStreetEdges_def Let_def rawFields_def
      split: option.splits list.splits)

lemma tallySegment_keeps:
  "tallySegment r s seg = Inr s' \<Longrightarrow> rawFields s = v \<and> carCost s = c \<Longrightarrow>
     rawFields s' = v \<and> carCost s' = c"
  by (auto simp: tallySegment_def Let_def rawFields_def
      split: option.splits list.splits sum.splits if_splits)

lemma tallyTransit_none:
  assumes "transit s = None \<or> transit s = Some []"
  shows "tallyTransit r s = Inr s"
  using assms by (auto simp: tallyTransit_def)

lemma tallyTransit_keeps:
  assumes "tallyTransit r s = Inr s'"
  shows "rawFields s' = rawFields s \<and> carCost s' = carCost s"
proof (cases "transit s = None \<or> transit s = Some []")
  case True
  with assms show ?thesis by (simp add: tallyTransit_none)
next
  case False
  then obtain sg sgs where tr: "transit s = Some (sg # sgs)"
    by (cases "transit s") (auto simp: neq_Nil_conv)
  let ?s0 = "s\<lparr>transfers := real (length (sg # sgs)) - 1, transitCost := 0, trips := Some \<infinity>\<rparr>"
  from assms tr obtain s3 where s3: "forEachE (tallySegment r) ?s0 (sg # sgs) = Inr s3"
    and s': "s' = (let o4 = (case fares s3 of None \<Rightarrow> s3 | Some fs \<Rightarrow> foldl addFare s3 fs)
                   in o4\<lparr>cost := cost o4 + transitCost o4\<rparr>)"
    by (auto simp: tallyTransit_def Let_def simp del: forEachE.simps split: sum.splits)
  have "rawFields s3 = rawFields s \<and> carCost s3 = carCost s"
  proof (rule forEachE_invariant [where f = "tallySegment r", OF _ s3])
    show "rawFields ?s0 = rawFields s \<and> carCost ?s0 = carCost s"
      by (simp add: rawFields_def)
  next
    fix a x b
    assume "tallySegment r a x = Inr b" and "rawFields a = rawFields s \<and> carCost a = carCost s"
    then show "rawFields b = rawFields s \<and> carCost b = carCost s"
      by (rule tallySegment_keeps)
  qed
  then show ?thesis
    using foldl_addFare_keeps [of s3]
    by (auto simp: s' Let_def rawFields_def split: option.splits)
qed

lemma tail_keeps:
  "rawFields (tallyCar r (tallyBikeCalories r (tallyWalkCalories r s))) = rawFields s
   \<and> trips (tallyCar r (tallyBikeCalories r (tallyWalkCalories r s))) = trips s
   \<and> modes (tallyCar r (tallyBikeCalories r (tallyWalkCalories r s))) = modes s
   \<and> driveDistance (tallyCar r (tallyBikeCalories r (tallyWalkCalories r s))) = driveDistance s
   \<and> carCost (tallyCar r (tallyBikeCalories r (tallyWalkCalories r s)))
       = (if ''car'' \<in> set (modes s)
          then Some (mileageRate r * (driveDistance s * METERS_TO_MILES) + carParkingCost r)
          else carCost s)"
  by (simp add: tallyCar_def tallyBikeCalories_def tallyWalkCalories_def Let_def rawFields_def)

lemma tallyAccumulate_stages:
  assumes "tallyAccumulate r o0 = Inr s"
  shows "\<exists>o4. s = tallyCar r (tallyBikeCalories r (tallyWalkCalories r o4))
              \<and> rawFields o4 = rawFields o0 \<and> carCost o4 = carCost o0"
proof -
  let ?d = "tallyDefaults o0"
  from assms obtain o2 o3 o4 where a: "tallyLeg (access ?d) ?d = Inr o2"
    and e: "tallyLeg (egress o2) o2 = Inr o3" and t: "tallyTransit r o3 = Inr o4"
    and s: "s = tallyCar r (tallyBikeCalories r (tallyWalkCalories r o4))"
    by (auto simp: tallyAccumulate_def Let_def split: sum.splits)
  have "rawFields ?d = rawFields o0 \<and> carCost ?d = carCost o0"
    by (simp add: tallyDefaults_def rawFields_def)
  with tallyLeg_keeps [OF a] tallyLeg_keeps [OF e] tallyTransit_keeps [OF t]
  have "rawFields o4 = rawFields o0 \<and> carCost o4 = carCost o0"
    by simp
  with s show ?thesis by blast
qed

lemma tally_carCost:
  assumes "tally r o0 = Inr t"
  shows "carCost t
           = (if ''car'' \<in> set (modes t)
              then Some (mileageRate r * (driveDistance t * METERS_TO_MILES) + carParkingCost r)
              else carCost o0)"
proof -
  from assms obtain s where s: "tallyAccumulate r o0 = Inr s" and t: "t = tallyFinish s"
    using tally_finish by blast
  from tallyAccumulate_stages [OF s] obtain o4
    where "s = tallyCar r (tallyBikeCalories r (tallyWalkCalories r o4))"
      and "carCost o4 = carCost o0"
    by blast
  then show ?thesis
    using tail_keeps [of r o4]
    by (simp add: t tallyFinish_def Let_def set_uniqueModes)
qed

subsection \<open>A tally from other prior values\<close>

lemma foldl_addFare_frame:
  "foldl addFare (s\<lparr>carCost := c\<rparr>) fs = (foldl addFare s fs)\<lparr>carCost := c\<rparr>"
proof (induction fs arbitrary: s)
  case Nil
  show ?case by simp
next
  case (Cons f fs)
  have "addFare (s\<lparr>carCost := c\<rparr>) f = (addFare s f)\<lparr>carCost := c\<rparr>"
    by (simp add: addFare_def split: option.splits)
  then show ?case by (simp add: Cons)
qed

lemma tallyLeg_frame:
  "tallyLeg legs (s\<lparr>carCost := c, trips := tr\<rparr>)
     = map_sum id (\<lambda>x. x\<lparr>carCost := c, trips := tr\<rparr>) (tallyLeg legs s)"
  by (simp add: tallyLeg_def addStreetEdges_def Let_def split: option.splits list.splits)

lemma tallySegment_frame:
  "tallySegment r (s\<lparr>carCost := c\<rparr>) seg
     = map_sum id (\<lambda>x. x\<lparr>carCost := c\<rparr>) (tallySegment r s seg)"
  by (simp add: tallySegment_def Let_def split: option.splits list.splits sum.splits)

lemma tallyTransit_frame_none:
  assumes "transit s = None \<or> transit s = Some []"
  shows "tallyTransit r (s\<lparr>carCost := c, trips := tr\<rparr>) = Inr (s\<lparr>carCost := c, trips := tr\<rparr>)"
  using assms by (auto simp: tallyTransit_def)

lemma tallyTransit_frame_some:
  assumes "transit s = Some (sg # sgs)"
  shows "tallyTransit r (s\<lparr>carCost := c, trips := tr\<rparr>)
           = map_sum id (\<lambda>x. x\<lparr>carCost := c\<rparr>) (tallyTransit r s)"
proof -
  let ?s0 = "s\<lparr>transfers := real (length (sg # sgs)) - 1, transitCost := 0, trips := Some \<infinity>\<rparr>"
  let ?fin = "\<lambda>o3. (let o4 = (case fares o3 of None \<Rightarrow> o3 | Some fs \<Rightarrow> foldl addFare o3 fs)
                     in Inr (o4\<lparr>cost := cost o4 + transitCost o4\<rparr>) :: error + tripOption)"
  have start: "s\<lparr>carCost := c, trips := tr, transfers := real (length (sg # sgs)) - 1,
                 transitCost := 0, trips := Some \<infinity>\<rparr> = ?s0\<lparr>carCost := c\<rparr>"
    by simp
  have tr': "transit (s\<lparr>carCost := c, trips := tr\<rparr>) = Some (sg # sgs)"
    using assms by simp
  have loop: "forEachE (tallySegment r) (?s0\<lparr>carCost := c\<rparr>) (sg # sgs)
                = map_sum id (\<lambda>x. x\<lparr>carCost := c\<rparr>) (forEachE (tallySegment r) ?s0 (sg # sgs))"
    by (rule forEachE_frame) (rule tallySegment_frame)
  have fin: "?fin (x\<lparr>carCost := c\<rparr>) = map_sum id (\<lambda>x. x\<lparr>carCost := c\<rparr>) (?fin x)" for x
    by (simp add: Let_def foldl_addFare_frame split: option.splits)
  have "tallyTransit r (s\<lparr>carCost := c, trips := tr\<rparr>)
          = (case forEachE (tallySegment r) (?s0\<lparr>carCost := c\<rparr>) (sg # sgs) of
               Inl e \<Rightarrow> Inl e | Inr o3 \<Rightarrow> ?fin o3)"
    unfolding tallyTransit_def tr' option.case list.case Let_def start ..
  also have "\<dots> = map_sum id (\<lambda>x. x\<lparr>carCost := c\<rparr>)
                     (case forEachE (tallySegment r) ?s0 (sg # sgs) of
                        Inl e \<Rightarrow> Inl e | Inr o3 \<Rightarrow> ?fin o3)"
    unfolding loop by (cases "forEachE (tallySegment r) ?s0 (sg # sgs)") (simp_all only: sum.case map_sum.simps id_apply fin)
  also have "\<dots> = map_sum id (\<lambda>x. x\<lparr>carCost := c\<rparr>) (tallyTransit r s)"
    unfolding tallyTransit_def assms option.case list.case Let_def ..
  finally show ?thesis .
qed

text \<open>The three blocks that follow the transit block.\<close>

lemma tail_frame:
  "tallyCar r (tallyBikeCalories r (tallyWalkCalories r (s\<lparr>carCost := c, trips := tr\<rparr>)))
     = (let s' = tallyCar r (tallyBikeCalories r (tallyWalkCalories r s))
        in s'\<lparr>carCost := (if ''car'' \<in> set (modes s') then carCost s' else c), trips := tr\<rparr>)"
  by (simp add: tallyCar_def tallyBikeCalories_def tallyWalkCalories_def Let_def)

lemma tail_frame_carCost:
  "tallyCar r (tallyBikeCalories r (tallyWalkCalories r (s\<lparr>carCost := c\<rparr>)))
     = (let s' = tallyCar r (tallyBikeCalories r (tallyWalkCalories r s))
        in s'\<lparr>carCost := (if ''car'' \<in> set (modes s') then carCost s' else c)\<rparr>)"
  by (simp add: tallyCar_def tallyBikeCalories_def tallyWalkCalories_def Let_def)

lemma tallyAccumulate_frame:
  "tallyAccumulate r (o0\<lparr>carCost := c, trips := tr\<rparr>)
     = (case tallyAccumulate r o0 of
          Inl e \<Rightarrow> Inl e
        | Inr s \<Rightarrow>
            Inr (s\<lparr>carCost := (if ''car'' \<in> set (modes s) then carCost s else c),
                    trips := (case transit o0 of Some (sg # sgs) \<Rightarrow> trips s | _ \<Rightarrow> tr)\<rparr>))"
proof -
  let ?d = "tallyDefaults o0"
  let ?u = "\<lambda>x. x\<lparr>carCost := c, trips := tr\<rparr>"
  let ?tail = "\<lambda>x. tallyCar r (tallyBikeCalories r (tallyWalkCalories r x))"
  have d: "tallyDefaults (?u o0) = ?u ?d"
    by (simp add: tallyDefaults_def)
  have acc: "tallyAccumulate r x =
               (case tallyLeg (access (tallyDefaults x)) (tallyDefaults x) of
                  Inl e \<Rightarrow> Inl e
                | Inr o2 \<Rightarrow>
                    (case tallyLeg (egress o2) o2 of
                       Inl e \<Rightarrow> Inl e
                     | Inr o3 \<Rightarrow>
                         (case tallyTransit r o3 of
                            Inl e \<Rightarrow> Inl e
                          | Inr o4 \<Rightarrow> Inr (?tail o4))))" for x
    by (simp add: tallyAccumulate_def Let_def)
  show ?thesis
  proof (cases "tallyLeg (access ?d) ?d")
    case (Inl e)
    then show ?thesis
      by (simp add: acc d tallyLeg_frame)
  next
    case a: (Inr o2)
    have r2: "rawFields o2 = rawFields o0"
      using tallyLeg_keeps [OF a] by (simp add: tallyDefaults_def rawFields_def)
    show ?thesis
    proof (cases "tallyLeg (egress o2) o2")
      case (Inl e)
      then show ?thesis
        using a by (simp add: acc d tallyLeg_frame)
    next
      case e: (Inr o3)
      have r3: "transit o3 = transit o0"
        using tallyLeg_keeps [OF e] r2 by (simp add: rawFields_def)
      show ?thesis
      proof (cases "transit o0 = None \<or> transit o0 = Some []")
        case True
        then have n: "transit o3 = None \<or> transit o3 = Some []"
          by (simp add: r3)
        from True have "(case transit o0 of Some (sg # sgs) \<Rightarrow> trips (?tail o3) | _ \<Rightarrow> tr) = tr"
          by auto
        then show ?thesis
          using a e tallyTransit_none [OF n] tallyTransit_frame_none [OF n]
          by (simp add: acc d tallyLeg_frame tail_frame Let_def)
      next
        case False
        then obtain sg sgs where tr0: "transit o0 = Some (sg # sgs)"
          by (cases "transit o0") (auto simp: neq_Nil_conv)
        then have tr3: "transit o3 = Some (sg # sgs)"
          by (simp add: r3)
        show ?thesis
        proof (cases "tallyTransit r o3")
          case (Inl err)
          then show ?thesis
            using a e tallyTransit_frame_some [OF tr3, where r = r and c = c and tr = tr]
            by (simp add: acc d tallyLeg_frame)
        next
          case t: (Inr o4)
          have "?tail (o4\<lparr>carCost := c\<rparr>)
                  = (?tail o4)\<lparr>carCost := (if ''car'' \<in> set (modes (?tail o4))
                                           then carCost (?tail o4) else c),
                               trips := trips (?tail o4)\<rparr>"
            by (simp add: tail_frame_carCost Let_def)
          then show ?thesis
            using a e t tr0 tallyTransit_frame_some [OF tr3, where r = r and c = c and tr = tr]
            by (simp add: acc d tallyLeg_frame)
        qed
      qed
    qed
  qed
qed

lemma tally_idempotent:
  assumes "tally r o0 = Inr t"
  shows "tally r t = Inr t"
proof -
  from assms obtain s where s: "tallyAccumulate r o0 = Inr s" and t: "t = tallyFinish s"
    using tally_finish by blast
  from tallyAccumulate_stages [OF s] tail_keeps have raw: "rawFields s = rawFields o0"
    by force
  have "tallyDefaults t = tallyDefaults (o0\<lparr>carCost := carCost s, trips := trips s\<rparr>)"
    using raw by (intro tripOption.equality) (simp_all add: t tallyDefaults_def tallyFinish_def Let_def rawFields_def)
  then have "tallyAccumulate r t = tallyAccumulate r (o0\<lparr>carCost := carCost s, trips := trips s\<rparr>)"
    by (simp add: tallyAccumulate_def)
  also have "\<dots> = Inr s"
    by (simp add: tallyAccumulate_frame s split: option.splits list.splits)
  finally show ?thesis
    by (simp add: tally_def t)
qed

subsection \<open>Well-formed options\<close>

lemma tallyLeg_returns:
  assumes "list_all legOk (case legs of None \<Rightarrow> [] | Some ls \<Rightarrow> ls)"
  shows "\<exists>s'. tallyLeg legs s = Inr s'"
  using assms by (auto simp: tallyLeg_def legOk_def Let_def split: option.splits list.splits)

lemma tallySegment_returns:
  assumes "segmentOk sg"
  shows "\<exists>s'. tallySegment r s sg = Inr s'"
  using assms
  by (auto simp: tallySegment_def segmentOk_def Let_def split: option.splits list.splits)

lemma tallyTransit_returns:
  assumes "list_all segmentOk (case transit s of None \<Rightarrow> [] | Some sgs \<Rightarrow> sgs)"
  shows "\<exists>s'. tallyTransit r s = Inr s'"
proof (cases "transit s = None \<or> transit s = Some []")
  case True
  then show ?thesis by (simp add: tallyTransit_none)
next
  case False
  then obtain sg sgs where tr: "transit s = Some (sg # sgs)"
    by (cases "transit s") (auto simp: neq_Nil_conv)
  let ?s0 = "s\<lparr>transfers := real (length (sg # sgs)) - 1, transitCost := 0, trips := Some \<infinity>\<rparr>"
  have "\<exists>s3. forEachE (tallySegment r) ?s0 (sg # sgs) = Inr s3"
  proof (rule forEachE_returns)
    fix a x
    assume "x \<in> set (sg # sgs)"
    with assms tr have "segmentOk x"
      by (auto simp: list_all_iff)
    then show "\<exists>s'. tallySegment r a x = Inr s'"
      by (rule tallySegment_returns)
  qed
  then obtain s3 where "forEachE (tallySegment r) ?s0 (sg # sgs) = Inr s3"
    by blast
  with tr show ?thesis
    by (simp add: tallyTransit_def Let_def del: forEachE.simps)
qed

lemma tally_returns:
  assumes "optionOk o0"
  shows "\<exists>t. tally r o0 = Inr t"
proof -
  let ?d = "tallyDefaults o0"
  have raw: "access ?d = access o0" "egress ?d = egress o0" "transit ?d = transit o0"
    by (simp_all add: tallyDefaults_def)
  from assms obtain o2 where a: "tallyLeg (access ?d) ?d = Inr o2"
    using tallyLeg_returns [of "access ?d" ?d] by (auto simp: optionOk_def raw)
  from tallyLeg_keeps [OF a] have r2: "egress o2 = egress o0" "transit o2 = transit o0"
    by (simp_all add: rawFields_def raw)
  from assms obtain o3 where e: "tallyLeg (egress o2) o2 = Inr o3"
    using tallyLeg_returns [of "egress o2" o2] by (auto simp: optionOk_def r2)
  from tallyLeg_keeps [OF e] have r3: "transit o3 = transit o0"
    by (simp add: rawFields_def r2)
  from assms obtain o4 where t: "tallyTransit r o3 = Inr o4"
    using tallyTransit_returns [of o3 r] by (auto simp: optionOk_def r3)
  from a e t show ?thesis
    by (simp add: tally_def tallyAccumulate_def Let_def)
qed

lemma processOption_returns:
  assumes "optionOk o0"
  shows "\<exists>p. processOption fs r o0 = Inr p"
  using tally_returns [OF assms, of r] by (auto simp: processOption_def)

lemma accessStep_returns:
  assumes "optionOk o1" and "legOk a"
  shows "\<exists>acc'. accessStep fs r o1 acc a = Inr acc'"
proof (cases "egress o1 = None \<or> egress o1 = Some []")
  case True
  from assms have "optionOk (o1\<lparr>access := Some [a]\<rparr>)"
    by (simp add: optionOk_def)
  from processOption_returns [OF this, of fs r] True show ?thesis
    by (auto simp: accessStep_def)
next
  case False
  then obtain e es where eg: "egress o1 = Some (e # es)"
    by (cases "egress o1") (auto simp: neq_Nil_conv)
  have "\<exists>acc'. forEachE (egressStep fs r o1 a) acc (e # es) = Inr acc'"
  proof (rule forEachE_returns)
    fix s x
    assume "x \<in> set (e # es)"
    with assms eg have "optionOk (o1\<lparr>access := Some [a], egress := Some [x]\<rparr>)"
      by (auto simp: optionOk_def list_all_iff)
    from processOption_returns [OF this, of fs r]
    show "\<exists>s'. egressStep fs r o1 a s x = Inr s'"
      by (auto simp: egressStep_def)
  qed
  with eg show ?thesis
    by (simp add: accessStep_def del: forEachE.simps)
qed

lemma optionStep_returns:
  assumes "optionOk o1"
  shows "\<exists>acc'. optionStep fs r acc o1 = Inr acc'"
proof (cases "access o1")
  case None
  then show ?thesis by (simp add: optionStep_def)
next
  case (Some as)
  have "\<exists>acc'. forEachE (accessStep fs r o1) acc as = Inr acc'"
  proof (rule forEachE_returns)
    fix s x
    assume "x \<in> set as"
    with assms Some have "legOk x"
      by (auto simp: optionOk_def list_all_iff)
    with assms show "\<exists>s'. accessStep fs r o1 s x = Inr s'"
      by (rule accessStep_returns)
  qed
  with Some show ?thesis
    by (simp add: optionStep_def)
qed

lemma processOptions_returns:
  assumes "list_all optionOk os"
  shows "\<exists>rs. processOptions fs r os = Inr rs"
proof -
  have "\<exists>p. forEachE (optionStep fs r) [] os = Inr p"
  proof (rule forEachE_returns)
    fix s x
    assume "x \<in> set os"
    with assms have "optionOk x"
      by (simp add: list_all_iff)
    then show "\<exists>s'. optionStep fs r s x = Inr s'"
      by (rule optionStep_returns)
  qed
  then show ?thesis
    by (auto simp: processOptions_def expandOptions_def)
qed

subsection \<open>Sorting and counting\<close>

lemma insertBy_insort: "insertBy compareScore x ys = insort_key score x ys"
  by (induction ys) (simp_all add: compareScore_def)

lemma sortBy_sort_key: "sortBy compareScore xs = sort_key score xs"
  by (induction xs) (simp_all add: sortBy_def insertBy_insort)

lemma sortBy_sorted: "sorted_wrt (\<lambda>x y. score x \<le> score y) (sortBy compareScore xs)"
  using sorted_sort_key [of score xs] by (simp add: sortBy_sort_key sorted_map)

lemma sortBy_stable: "filter (\<lambda>x. score x = k) (sortBy compareScore xs) = filter (\<lambda>x. score x = k) xs"
  by (simp add: sortBy_sort_key sort_key_stable)

lemma sortBy_length: "length (sortBy compareScore xs) = length xs"
  by (simp add: sortBy_sort_key)

lemma egress_loop_length:
  assumes "forEachE (egressStep fs r o1 a) acc es = Inr acc'"
  shows "length acc' = length acc + length es"
proof -
  have "length acc' = length acc + sum_list (map (\<lambda>_. 1) es)"
  proof (rule forEachE_length [where f = "egressStep fs r o1 a", OF _ assms])
    show "length s' = length s + 1" if "egressStep fs r o1 a s x = Inr s'" for s x s'
      using that by (auto simp: egressStep_def split: sum.splits)
  qed
  then show ?thesis by (simp add: sum_list_triv)
qed

text \<open>The branches one access alternative gives.\<close>

lemma accessStep_length:
  assumes "accessStep fs r o1 acc a = Inr acc'"
  shows "length acc' = length acc
           + (case egress o1 of None \<Rightarrow> 1 | Some [] \<Rightarrow> 1 | Some es \<Rightarrow> length es)"
proof (cases "egress o1")
  case None
  with assms show ?thesis by (auto simp: accessStep_def split: sum.splits)
next
  case (Some es)
  show ?thesis
  proof (cases es)
    case Nil
    with assms Some show ?thesis by (auto simp: accessStep_def split: sum.splits)
  next
    case (Cons e es')
    with assms Some have "forEachE (egressStep fs r o1 a) acc es = Inr acc'"
      by (simp add: accessStep_def del: forEachE.simps)
    then have "length acc' = length acc + length es"
      by (rule egress_loop_length)
    with Some Cons show ?thesis by simp
  qed
qed

lemma optionStep_length:
  assumes "optionStep fs r acc o1 = Inr acc'"
  shows "length acc' = length acc + branchCount o1"
proof (cases "access o1")
  case None
  with assms show ?thesis by (simp add: optionStep_def branchCount_def)
next
  case (Some as)
  let ?k = "case egress o1 of None \<Rightarrow> 1 | Some [] \<Rightarrow> 1 | Some es \<Rightarrow> length es"
  from assms Some have run: "forEachE (accessStep fs r o1) acc as = Inr acc'"
    by (simp add: optionStep_def)
  have "length acc' = length acc + sum_list (map (\<lambda>_. ?k) as)"
    by (rule forEachE_length [where f = "accessStep fs r o1", OF _ run])
      (rule accessStep_length)
  then have "length acc' = length acc + length as * ?k"
    by (simp add: sum_list_triv)
  moreover have "branchCount o1 = length as * ?k"
    using Some by (simp add: branchCount_def split: option.splits list.splits)
  ultimately show ?thesis by simp
qed

lemma expandOptions_length:
  assumes "expandOptions fs r os = Inr processed"
  shows "length processed = sum_list (map branchCount os)"
proof -
  have "length processed = length ([]::tripOption list) + sum_list (map branchCount os)"
    by (rule forEachE_length [where f = "optionStep fs r", OF _ assms [unfolded expandOptions_def]])
      (rule optionStep_length)
  then show ?thesis by simp
qed

subsection \<open>The loop of the score\<close>

text \<open>The callback adds to the running score and never reads it, nor the time.\<close>

lemma scoreStep_time: "scoreStep fs (o1\<lparr>time := t\<rparr>) = scoreStep fs o1"
  by (simp add: scoreStep_def fun_eq_iff)

lemma scoreStep_shift:
  "scoreStep fs o1 (a, b) m
     = (a + fst (scoreStep fs o1 (0, b) m), snd (scoreStep fs o1 (0, b) m))"
  by (simp add: scoreStep_def)

lemma scoreLoop_shift:
  "foldl (scoreStep fs o1) (a, b) ms
     = (a + fst (foldl (scoreStep fs o1) (0, b) ms), snd (foldl (scoreStep fs o1) (0, b) ms))"
proof (induction ms arbitrary: a b)
  case Nil
  show ?case by simp
next
  case (Cons m ms)
  let ?k = "fst (scoreStep fs o1 (0, b) m)"
  let ?b = "snd (scoreStep fs o1 (0, b) m)"
  have "foldl (scoreStep fs o1) (a, b) (m # ms) = foldl (scoreStep fs o1) (a + ?k, ?b) ms"
    by (simp add: scoreStep_shift [of fs o1 a b m])
  also have "\<dots> = (a + ?k + fst (foldl (scoreStep fs o1) (0, ?b) ms),
                    snd (foldl (scoreStep fs o1) (0, ?b) ms))"
    by (rule Cons.IH)
  finally have l: "foldl (scoreStep fs o1) (a, b) (m # ms)
                     = (a + ?k + fst (foldl (scoreStep fs o1) (0, ?b) ms),
                        snd (foldl (scoreStep fs o1) (0, ?b) ms))" .
  have "foldl (scoreStep fs o1) (0, b) (m # ms) = foldl (scoreStep fs o1) (?k, ?b) ms"
    by simp
  also have "\<dots> = (?k + fst (foldl (scoreStep fs o1) (0, ?b) ms),
                    snd (foldl (scoreStep fs o1) (0, ?b) ms))"
    by (rule Cons.IH)
  finally have r: "foldl (scoreStep fs o1) (0, b) (m # ms)
                     = (?k + fst (foldl (scoreStep fs o1) (0, ?b) ms),
                        snd (foldl (scoreStep fs o1) (0, ?b) ms))" .
  show ?case
    unfolding l r by simp
qed

lemma scoreModes_time:
  "scoreModes fs o1
     = (time o1 / 60 + fst (scoreModes fs (o1\<lparr>time := 0\<rparr>)),
        snd (scoreModes fs (o1\<lparr>time := 0\<rparr>)))"
  using scoreLoop_shift [of fs o1 "time o1 / 60" 0 "modes o1"]
  by (simp add: scoreModes_def scoreStep_time)

subsection \<open>The example options\<close>

lemma carTransit_tally: "tally DEFAULT_RATES carTransit = Inr carTransitTallied"
  by (simp add: carTransit_def carTransitTallied_def busSegment_def rawOption_def tally_defs
      const_defs Let_def)

lemma walkNoEdges_tally: "tally DEFAULT_RATES walkNoEdges = Inr walkNoEdgesTallied"
  by (simp add: walkNoEdges_def walkNoEdgesTallied_def walkLeg_def rawOption_def tally_defs
      const_defs Let_def)

lemma staleEmpty_tally: "tally DEFAULT_RATES staleEmpty = Inr staleEmptyTallied"
  by (simp add: staleEmpty_def staleEmptyTallied_def rawOption_def tally_defs Let_def)

lemma rentWalkBus_accumulate:
  "tallyAccumulate DEFAULT_RATES rentWalkBus = Inr rentWalkBusAccumulated"
  by (simp add: rentWalkBus_def rentWalkBusAccumulated_def busSegment_def rawOption_def
      tally_defs const_defs Let_def)

lemma expand_example:
  "expandOptions DEFAULT_TIME_FACTORS DEFAULT_RATES exampleOptions = Inr rankedOptions"
  by (simp add: exampleOptions_def twoByOne_def egressOnly_def quickWalk_def rankedOptions_def
      expandOptions_def optionStep_def accessStep_def egressStep_def processOption_def
      scoreOf_def scoreModes_def totalCalories_def applyFactor_def
      rawOption_def walkLeg_def bikeLeg_def tally_defs const_defs Let_def)

lemma process_example:
  "processOptions DEFAULT_TIME_FACTORS DEFAULT_RATES exampleOptions
     = Inr [rankedOptions ! 2, rankedOptions ! 0, rankedOptions ! 1]"
  by (simp add: processOptions_def expand_example sortBy_def compareScore_def rankedOptions_def)

section \<open>The claims\<close>

subsection \<open>The score\<close>

text \<open>
  C1. The claim that \<^verbatim>\<open>score\<close> counts the bike calories once fails at \<open>bikeBoth\<close>:
  the modes hold \<open>bicycle\<close> and \<open>bicycle_rent\<close>, each adds \<open>bikeCalories\<close>, and
  the local \<^verbatim>\<open>totalCalories\<close> ends as twice the bike calories plus the walk calories,
  while \<^verbatim>\<open>tally\<close> has set \<open>calories\<close> to their plain sum.
\<close>

theorem score_adds_bike_calories_twice:
  "tally DEFAULT_RATES bikeBoth = Inr bikeBothTallied
   \<and> modes bikeBothTallied = [''bicycle'', ''bicycle_rent'', ''walk'']
   \<and> bikeCalories bikeBothTallied = 10000 / 123
   \<and> walkCalories bikeBothTallied = 475 / 84
   \<and> calories bikeBothTallied = bikeCalories bikeBothTallied + walkCalories bikeBothTallied
   \<and> totalCalories DEFAULT_TIME_FACTORS bikeBothTallied
       = 2 * bikeCalories bikeBothTallied + walkCalories bikeBothTallied
   \<and> totalCalories DEFAULT_TIME_FACTORS bikeBothTallied \<noteq> calories bikeBothTallied"
proof -
  have "tally DEFAULT_RATES bikeBoth = Inr bikeBothTallied"
    by (simp add: bikeBoth_def bikeBothTallied_def rawOption_def tally_defs const_defs Let_def)
  moreover have "totalCalories DEFAULT_TIME_FACTORS bikeBothTallied
       = 2 * bikeCalories bikeBothTallied + walkCalories bikeBothTallied"
    by (simp add: bikeBothTallied_def totalCalories_def scoreModes_def scoreStep_def)
  ultimately show ?thesis
    by (simp add: bikeBothTallied_def)
qed

text \<open>
  C2, as stated: the score of an option with no modes, no transfers and no cost would be
  its time. At \<open>walkNoEdges\<close> the time is 360 and the score is 6.
\<close>

theorem score_time_unconverted_counterexample:
  "tally DEFAULT_RATES walkNoEdges = Inr walkNoEdgesTallied
   \<and> modes walkNoEdgesTallied = [] \<and> transfers walkNoEdgesTallied = 0
   \<and> cost walkNoEdgesTallied = 0 \<and> time walkNoEdgesTallied = 360
   \<and> scoreOf DEFAULT_TIME_FACTORS walkNoEdgesTallied = 6
   \<and> scoreOf DEFAULT_TIME_FACTORS walkNoEdgesTallied
       \<noteq> time walkNoEdgesTallied
           + applyFactor 0 (transferF DEFAULT_TIME_FACTORS)
           + applyFactor 0 (costF DEFAULT_TIME_FACTORS)
           + applyFactor 0 (caloriesF DEFAULT_TIME_FACTORS)"
  using walkNoEdges_tally
  by (simp add: walkNoEdgesTallied_def walkNoEdges_def rawOption_def scoreOf_def scoreModes_def
      totalCalories_def applyFactor_def DEFAULT_TIME_FACTORS_def)

text \<open>
  C2, amended. \<^verbatim>\<open>score\<close> starts from \<open>time / 60\<close>: the score of every option is
  \<open>time / 60\<close> plus the score the option would have with time 0, whatever its modes.
  For an option with no modes, no transfers and no cost the score is \<open>time / 60\<close> plus
  the three factors applied to 0, which is \<open>time / 60\<close> under the default factors.
\<close>

theorem score_time_in_minutes:
  "scoreOf fs o1 = time o1 / 60 + scoreOf fs (o1\<lparr>time := 0\<rparr>)
   \<and> (modes o1 = [] \<and> transfers o1 = 0 \<and> cost o1 = 0 \<longrightarrow>
        scoreOf fs o1
          = time o1 / 60 + applyFactor 0 (transferF fs) + applyFactor 0 (costF fs)
              + applyFactor 0 (caloriesF fs)
        \<and> scoreOf DEFAULT_TIME_FACTORS o1 = time o1 / 60)"
proof -
  have "scoreOf fs o1 = time o1 / 60 + scoreOf fs (o1\<lparr>time := 0\<rparr>)"
    using scoreModes_time [of fs o1]
    by (simp add: scoreOf_def totalCalories_def)
  moreover have "scoreOf fs o1
          = time o1 / 60 + applyFactor 0 (transferF fs) + applyFactor 0 (costF fs)
              + applyFactor 0 (caloriesF fs)
        \<and> scoreOf DEFAULT_TIME_FACTORS o1 = time o1 / 60"
    if "modes o1 = [] \<and> transfers o1 = 0 \<and> cost o1 = 0"
    using that
    by (simp add: scoreOf_def scoreModes_def totalCalories_def applyFactor_def
        DEFAULT_TIME_FACTORS_def)
  ultimately show ?thesis by blast
qed

text \<open>
  At \<open>walkNoEdges\<close> tallied, which has no modes, and at \<open>bikeBoth\<close> tallied, which has
  three.
\<close>

theorem score_time_in_minutes_witness:
  "modes walkNoEdgesTallied = [] \<and> transfers walkNoEdgesTallied = 0
   \<and> cost walkNoEdgesTallied = 0 \<and> time walkNoEdgesTallied = 360
   \<and> scoreOf DEFAULT_TIME_FACTORS walkNoEdgesTallied = 360 / 60
   \<and> modes bikeBothTallied = [''bicycle'', ''bicycle_rent'', ''walk'']
   \<and> time bikeBothTallied = 600
   \<and> scoreOf DEFAULT_TIME_FACTORS bikeBothTallied
       = 600 / 60 + scoreOf DEFAULT_TIME_FACTORS (bikeBothTallied\<lparr>time := 0\<rparr>)
   \<and> scoreOf DEFAULT_TIME_FACTORS (bikeBothTallied\<lparr>time := 0\<rparr>) = 2 - 579475 / 344400"
proof -
  have h: "modes walkNoEdgesTallied = [] \<and> transfers walkNoEdgesTallied = 0
           \<and> cost walkNoEdgesTallied = 0" "time walkNoEdgesTallied = 360"
    by (simp_all add: walkNoEdgesTallied_def walkNoEdges_def rawOption_def)
  have b: "modes bikeBothTallied = [''bicycle'', ''bicycle_rent'', ''walk'']"
    "time bikeBothTallied = 600"
    by (simp_all add: bikeBothTallied_def bikeBoth_def rawOption_def)
  have z: "scoreOf DEFAULT_TIME_FACTORS (bikeBothTallied\<lparr>time := 0\<rparr>) = 2 - 579475 / 344400"
    by (simp add: bikeBothTallied_def bikeBoth_def rawOption_def scoreOf_def scoreModes_def
        scoreStep_def totalCalories_def applyFactor_def DEFAULT_TIME_FACTORS_def)
  from score_time_in_minutes [of DEFAULT_TIME_FACTORS walkNoEdgesTallied]
    score_time_in_minutes [of DEFAULT_TIME_FACTORS bikeBothTallied]
  show ?thesis
    using h b z by simp
qed

subsection \<open>Emissions of an option with a car\<close>

text \<open>
  C3. Whenever \<^verbatim>\<open>tally\<close> returns an option whose modes contain \<open>car\<close>, its emissions
  are \<open>driveDistance / mpg * CO2_PER_GALLON\<close>: the car block assigns the field, so the
  amounts the transit legs added before are gone, however many legs there were.
\<close>

theorem car_emissions_override:
  assumes "tally r o0 = Inr t" and "''car'' \<in> set (modes t)"
  shows "emissions t = driveDistance t / mpg r * CO2_PER_GALLON"
proof -
  from assms(1) obtain s where s: "tallyAccumulate r o0 = Inr s" and t: "t = tallyFinish s"
    using tally_finish by blast
  from s obtain s' where s': "s = tallyCar r s'"
    using tallyAccumulate_car by blast
  from assms(2) have "''car'' \<in> set (modes (tallyCar r s'))"
    by (simp add: t s' tallyFinish_fields set_uniqueModes)
  then show ?thesis
    by (simp add: t s' tallyFinish_fields tallyCar_emissions)
qed

text \<open>
  At \<open>carTransit\<close>, a drive of 10000 m with two transit legs: the emissions are those of
  the drive, not the two per-trip amounts.
\<close>

theorem car_emissions_override_witness:
  "tally DEFAULT_RATES carTransit = Inr carTransitTallied
   \<and> ''car'' \<in> set (modes carTransitTallied)
   \<and> emissions carTransitTallied = 10000 / 21.4 * 8.887
   \<and> emissions carTransitTallied \<noteq> 2 * co2PerTransitTrip DEFAULT_RATES"
proof -
  have m: "''car'' \<in> set (modes carTransitTallied)"
    by (simp add: carTransitTallied_def)
  have d: "driveDistance carTransitTallied = 10000"
    by (simp add: carTransitTallied_def)
  from car_emissions_override [OF carTransit_tally m] show ?thesis
    using m d carTransit_tally by (simp add: const_defs)
qed

subsection \<open>Expansion and ranking\<close>

text \<open>
  C4. One option adds \<open>branchCount\<close> results to \<^verbatim>\<open>processed\<close>: the product of the
  numbers of access and egress alternatives, the number of access alternatives when
  \<open>egress\<close> is absent or empty, none when \<open>access\<close> is absent or empty. So a returning
  \<^verbatim>\<open>processOptions\<close> returns as many results as the options' counts add up to, and
  none for the empty list. It returns whenever the options are well formed.
\<close>

theorem processOptions_count:
  "(optionStep fs r acc o1 = Inr acc' \<longrightarrow> length acc' = length acc + branchCount o1)
   \<and> (processOptions fs r os = Inr rs \<longrightarrow> length rs = sum_list (map branchCount os))
   \<and> (list_all optionOk os \<longrightarrow> (\<exists>rs. processOptions fs r os = Inr rs))
   \<and> processOptions fs r [] = Inr []"
proof -
  have "length rs = sum_list (map branchCount os)" if "processOptions fs r os = Inr rs"
  proof -
    from that obtain processed where p: "expandOptions fs r os = Inr processed"
      and rs: "rs = sortBy compareScore processed"
      by (auto simp: processOptions_def split: sum.splits)
    from p have "length processed = sum_list (map branchCount os)"
      by (rule expandOptions_length)
    then show ?thesis by (simp add: rs sortBy_length)
  qed
  moreover have "processOptions fs r [] = Inr []"
    by (simp add: processOptions_def expandOptions_def sortBy_def)
  ultimately show ?thesis
    using optionStep_length processOptions_returns by blast
qed

text \<open>
  At \<open>exampleOptions\<close>: two results for two access alternatives and one egress
  alternative, none for the option without \<open>access\<close>, one for the empty \<open>egress\<close>.
\<close>

theorem processOptions_count_witness:
  "optionStep DEFAULT_TIME_FACTORS DEFAULT_RATES [] twoByOne = Inr (take 2 rankedOptions)
   \<and> length (take 2 rankedOptions) = length ([]::tripOption list) + branchCount twoByOne
   \<and> branchCount twoByOne = 2 \<and> branchCount egressOnly = 0 \<and> branchCount quickWalk = 1
   \<and> processOptions DEFAULT_TIME_FACTORS DEFAULT_RATES exampleOptions
       = Inr [rankedOptions ! 2, rankedOptions ! 0, rankedOptions ! 1]
   \<and> length [rankedOptions ! 2, rankedOptions ! 0, rankedOptions ! 1]
       = sum_list (map branchCount exampleOptions)
   \<and> list_all optionOk exampleOptions"
proof -
  have step: "optionStep DEFAULT_TIME_FACTORS DEFAULT_RATES [] twoByOne
                = Inr (take 2 rankedOptions)"
    by (simp add: twoByOne_def rankedOptions_def
        optionStep_def accessStep_def egressStep_def processOption_def
        scoreOf_def scoreModes_def totalCalories_def applyFactor_def
        rawOption_def walkLeg_def bikeLeg_def tally_defs const_defs Let_def)
  have counts: "branchCount twoByOne = 2" "branchCount egressOnly = 0" "branchCount quickWalk = 1"
    by (simp_all add: branchCount_def twoByOne_def egressOnly_def quickWalk_def rawOption_def)
  have ok: "list_all optionOk exampleOptions"
    by (simp add: exampleOptions_def twoByOne_def egressOnly_def quickWalk_def rawOption_def
        walkLeg_def bikeLeg_def busSegment_def optionOk_def legOk_def segmentOk_def)
  from processOptions_count [of DEFAULT_TIME_FACTORS DEFAULT_RATES "[]" twoByOne
      "take 2 rankedOptions" exampleOptions
      "[rankedOptions ! 2, rankedOptions ! 0, rankedOptions ! 1]"]
  show ?thesis
    using step counts process_example ok by simp
qed

text \<open>
  C5. When the expansion returns, \<^verbatim>\<open>processOptions\<close> returns its results in ascending
  order of score, and the results of any one score are in the order in which their
  branches were pushed. (\<^verbatim>\<open>sort\<close> is the stable sort of the language standard.)
\<close>

theorem processOptions_sorted_stable:
  assumes "expandOptions fs r os = Inr processed"
  shows "\<exists>rs. processOptions fs r os = Inr rs
           \<and> sorted_wrt (\<lambda>x y. score x \<le> score y) rs
           \<and> (\<forall>k. filter (\<lambda>x. score x = k) rs = filter (\<lambda>x. score x = k) processed)"
  using assms by (simp add: processOptions_def sortBy_sorted sortBy_stable)

text \<open>
  At \<open>exampleOptions\<close>: the two branches of score 3 keep their order behind the branch
  of score 1, which was pushed last.
\<close>

theorem processOptions_sorted_stable_witness:
  "expandOptions DEFAULT_TIME_FACTORS DEFAULT_RATES exampleOptions = Inr rankedOptions
   \<and> map score rankedOptions = [3, 3, 1]
   \<and> processOptions DEFAULT_TIME_FACTORS DEFAULT_RATES exampleOptions
       = Inr [rankedOptions ! 2, rankedOptions ! 0, rankedOptions ! 1]
   \<and> sorted_wrt (\<lambda>x y. score x \<le> score y)
         [rankedOptions ! 2, rankedOptions ! 0, rankedOptions ! 1]
   \<and> filter (\<lambda>x. score x = 3) [rankedOptions ! 2, rankedOptions ! 0, rankedOptions ! 1]
       = filter (\<lambda>x. score x = 3) rankedOptions"
proof -
  have sc: "map score rankedOptions = [3, 3, 1]"
    by (simp add: rankedOptions_def)
  from processOptions_sorted_stable [OF expand_example] show ?thesis
    using sc expand_example process_example by auto
qed

subsection \<open>What a run of tally starts from\<close>

text \<open>
  C6, as stated: \<open>carCost\<close> would be 0 at the start of every run and never absent in
  the result. It is absent after the tally of \<open>walkNoEdges\<close>, a fresh option without a
  car, and the 12 that \<open>staleEmpty\<close> carries is still there after its tally.
\<close>

theorem tally_carCost_default_counterexample:
  "tally DEFAULT_RATES walkNoEdges = Inr walkNoEdgesTallied
   \<and> carCost walkNoEdgesTallied = None
   \<and> carCost walkNoEdgesTallied \<noteq> Some 0
   \<and> tally DEFAULT_RATES staleEmpty = Inr staleEmptyTallied
   \<and> carCost staleEmpty = Some 12
   \<and> carCost staleEmptyTallied = Some 12"
  using walkNoEdges_tally staleEmpty_tally
  by (simp add: walkNoEdgesTallied_def walkNoEdges_def staleEmpty_def staleEmptyTallied_def
      rawOption_def)

text \<open>
  C6, amended. The result of \<^verbatim>\<open>tally\<close> does not depend on what the twelve numeric
  accumulators other than \<open>carCost\<close>, and the modes, held before the call; without
  legs they all end as 0 (and the modes empty); a second run on the result of a run
  returns that result again. \<open>carCost\<close> is assigned only when \<open>car\<close> is among the
  modes, and is otherwise what the option held before the call.
\<close>

theorem tally_resets_accumulators:
  "tally r (o1\<lparr>bikeCalories := a1, calories := a2, cost := a3, emissions := a4, modes := ms,
              time := a5, timeInTransit := a6, transfers := a7, transitCost := a8,
              walkCalories := a9, bikeDistance := a10, driveDistance := a11,
              walkDistance := a12\<rparr>) = tally r o1
   \<and> (access o1 = None \<and> egress o1 = None \<and> transit o1 = None \<longrightarrow>
        tally r o1
          = Inr (o1\<lparr>bikeCalories := 0, calories := 0, cost := 0, emissions := 0, modes := [],
                    time := 0, timeInTransit := 0, transfers := 0, transitCost := 0,
                    walkCalories := 0, bikeDistance := 0, driveDistance := 0,
                    walkDistance := 0\<rparr>))
   \<and> (tally r o1 = Inr t \<longrightarrow>
        tally r t = Inr t
        \<and> carCost t
            = (if ''car'' \<in> set (modes t)
               then Some (mileageRate r * (driveDistance t * METERS_TO_MILES)
                          + carParkingCost r)
               else carCost o1))"
proof -
  have "tallyDefaults (o1\<lparr>bikeCalories := a1, calories := a2, cost := a3, emissions := a4,
              modes := ms, time := a5, timeInTransit := a6, transfers := a7, transitCost := a8,
              walkCalories := a9, bikeDistance := a10, driveDistance := a11,
              walkDistance := a12\<rparr>) = tallyDefaults o1"
    by (simp add: tallyDefaults_def)
  then have prior: "tally r (o1\<lparr>bikeCalories := a1, calories := a2, cost := a3, emissions := a4,
              modes := ms, time := a5, timeInTransit := a6, transfers := a7, transitCost := a8,
              walkCalories := a9, bikeDistance := a10, driveDistance := a11,
              walkDistance := a12\<rparr>) = tally r o1"
    by (simp add: tally_def tallyAccumulate_def)
  have zero: "tally r o1
          = Inr (o1\<lparr>bikeCalories := 0, calories := 0, cost := 0, emissions := 0, modes := [],
                    time := 0, timeInTransit := 0, transfers := 0, transitCost := 0,
                    walkCalories := 0, bikeDistance := 0, driveDistance := 0,
                    walkDistance := 0\<rparr>)"
    if "access o1 = None \<and> egress o1 = None \<and> transit o1 = None"
    using that
    by (simp add: tally_def tallyAccumulate_def tallyDefaults_def tallyLeg_def tallyTransit_def
        tallyWalkCalories_def tallyBikeCalories_def tallyCar_def tallyFinish_def
        uniqueModes_def Let_def)
  from prior zero tally_idempotent tally_carCost show ?thesis
    by blast
qed

text \<open>
  At \<open>staleEmpty\<close>, whose stale numbers are gone after the run while its car cost
  stays, and at \<open>carTransit\<close>, whose tallied form is tallied to itself.
\<close>

theorem tally_resets_accumulators_witness:
  "access staleEmpty = None \<and> egress staleEmpty = None \<and> transit staleEmpty = None
   \<and> tally DEFAULT_RATES staleEmpty = Inr staleEmptyTallied
   \<and> time staleEmpty = 99 \<and> time staleEmptyTallied = 0 \<and> cost staleEmptyTallied = 0
   \<and> modes staleEmptyTallied = [] \<and> carCost staleEmptyTallied = carCost staleEmpty
   \<and> tally DEFAULT_RATES carTransit = Inr carTransitTallied
   \<and> tally DEFAULT_RATES carTransitTallied = Inr carTransitTallied
   \<and> carCost carTransitTallied = Some (0.56 * (10000 * 0.000621371) + 10)"
proof -
  have none: "access staleEmpty = None \<and> egress staleEmpty = None \<and> transit staleEmpty = None"
    by (simp add: staleEmpty_def rawOption_def)
  have car: "''car'' \<in> set (modes carTransitTallied)" "driveDistance carTransitTallied = 10000"
    by (simp_all add: carTransitTallied_def)
  have a: "tally DEFAULT_RATES staleEmpty = Inr staleEmptyTallied"
    using tally_resets_accumulators [where r = DEFAULT_RATES and ?o1.0 = staleEmpty] none
    by (simp add: staleEmpty_def staleEmptyTallied_def rawOption_def)
  have b: "tally DEFAULT_RATES carTransitTallied = Inr carTransitTallied
           \<and> carCost carTransitTallied = Some (0.56 * (10000 * 0.000621371) + 10)"
    using tally_resets_accumulators [where r = DEFAULT_RATES and ?o1.0 = carTransit
        and t = carTransitTallied] carTransit_tally car
    by (simp add: const_defs)
  from none a b carTransit_tally show ?thesis
    by (simp add: staleEmpty_def staleEmptyTallied_def rawOption_def)
qed

subsection \<open>Construction\<close>

text \<open>
  C7. The claim that an instance sees the defaults for the keys it did not override,
  whatever earlier instances overrode, fails: \<^verbatim>\<open>merge\<close> assigns into the object
  \<^verbatim>\<open>DEFAULT_TIME_FACTORS\<close> names and every instance holds that one object. After a
  first scorer built with \<open>cost = 0\<close>, a second built with no overrides reads the cost
  factor 0, not the default 5.
\<close>

theorem constructor_overrides_persist:
  "factorsRef (snd firstScorer) = DEFAULT_TIME_FACTORS_ref
   \<and> factorsRef (snd secondScorer) = DEFAULT_TIME_FACTORS_ref
   \<and> costF DEFAULT_TIME_FACTORS = Number 5
   \<and> map_option costF (factorsOf (fst secondScorer) (snd secondScorer)) = Some (Number 0)"
  by (simp add: secondScorer_def firstScorer_def ProfileScore_def mergeFactors_def
      mergeRates_def moduleHeap_def factorsOf_def assignFactors_def assignRates_def
      costFree_def no_opts_def no_factors_overrides_def no_rates_overrides_def
      DEFAULT_TIME_FACTORS_ref_def DEFAULT_RATES_ref_def DEFAULT_TIME_FACTORS_def)

subsection \<open>Legs and their street edges\<close>

text \<open>
  C8. A leg of mode \<open>bicycle_rent\<close> with street edges pushes \<open>bicycle_rent\<close> and
  \<open>walk\<close> onto the modes, adds to \<open>bikeDistance\<close> the distances of the edges whose
  current sub-mode is \<open>bicycle\<close> and to \<open>walkDistance\<close> those of the edges whose
  current sub-mode is \<open>walk\<close> (and adds the leg's time). The access and the egress
  block are both \<open>tallyLeg\<close>. For Scenario C, \<^verbatim>\<open>tally\<close> returns the modes
  \<open>bicycle_rent\<close> and \<open>walk\<close>, \<open>bikeDistance = 1000\<close> and \<open>walkDistance = 100\<close>.
\<close>

theorem bicycle_rent_leg:
  assumes "leg_mode l = Some m" and "toLowerCase m = ''bicycle_rent''"
    and "streetEdges l = Some es"
  shows "tallyLeg (Some (l # ls)) o1
           = Inr (o1\<lparr>modes := modes o1 @ [''bicycle_rent'', ''walk''],
                     bikeDistance := bikeDistance o1 + distanceInMode es ''bicycle'',
                     walkDistance := walkDistance o1 + distanceInMode es ''walk'',
                     time := time o1 + leg_time l\<rparr>)
         \<and> (\<exists>t. tally r scenarioC = Inr t \<and> modes t = [''bicycle_rent'', ''walk'']
                \<and> bikeDistance t = 1000 \<and> walkDistance t = 100)"
proof -
  have "tallyLeg (Some (l # ls)) o1
           = Inr (o1\<lparr>modes := modes o1 @ [''bicycle_rent'', ''walk''],
                     bikeDistance := bikeDistance o1 + distanceInMode es ''bicycle'',
                     walkDistance := walkDistance o1 + distanceInMode es ''walk'',
                     time := time o1 + leg_time l\<rparr>)"
    using assms
    by (simp add: tallyLeg_def addStreetEdges_def Let_def streetEdgeDistanceForMode_spec)
  moreover have "\<exists>t. tally r scenarioC = Inr t \<and> modes t = [''bicycle_rent'', ''walk'']
                \<and> bikeDistance t = 1000 \<and> walkDistance t = 100"
    by (simp add: scenarioC_def rawOption_def tally_defs Let_def)
  ultimately show ?thesis by blast
qed

text \<open>At the leg of Scenario C, as the access block runs it.\<close>

theorem bicycle_rent_leg_witness:
  "tallyLeg (access scenarioC) (tallyDefaults scenarioC)
     = Inr (scenarioC\<lparr>modes := [''bicycle_rent'', ''walk''], bikeDistance := 1000,
                      walkDistance := 100, time := 300\<rparr>)
   \<and> distanceInMode [\<lparr>edge_mode = Some ''bicycle'', distance = 1000\<rparr>,
                      \<lparr>edge_mode = Some ''walk'', distance = 100\<rparr>] ''bicycle'' = 1000
   \<and> distanceInMode [\<lparr>edge_mode = Some ''bicycle'', distance = 1000\<rparr>,
                      \<lparr>edge_mode = Some ''walk'', distance = 100\<rparr>] ''walk'' = 100"
proof -
  let ?es = "[\<lparr>edge_mode = Some ''bicycle'', distance = 1000\<rparr>,
              \<lparr>edge_mode = Some ''walk'', distance = 100\<rparr>]"
  let ?l = "\<lparr>leg_mode = Some ''bicycle_rent'', streetEdges = Some ?es, leg_time = 300\<rparr>"
  have h: "leg_mode ?l = Some ''bicycle_rent''" "toLowerCase ''bicycle_rent'' = ''bicycle_rent''"
    "streetEdges ?l = Some ?es"
    by (simp_all add: toLowerCase_def)
  have d: "distanceInMode ?es ''bicycle'' = 1000" "distanceInMode ?es ''walk'' = 100"
    by (simp_all add: distanceInMode_def toLowerCase_def)
  from bicycle_rent_leg [OF h, of "[]" "tallyDefaults scenarioC" DEFAULT_RATES] show ?thesis
    using d by (simp add: scenarioC_def rawOption_def tallyDefaults_def)
qed

subsection \<open>Modes without duplicates\<close>

text \<open>
  C9. For every option, the modes \<^verbatim>\<open>tally\<close> returns have no duplicates, they are the
  modes pushed during the run (\<open>modes s\<close>, the list when the de-duplication starts), and
  they stand in the order of their first occurrences in that list.
\<close>

theorem tally_modes_unique:
  assumes "tallyAccumulate r o0 = Inr s"
  shows "tally r o0 = Inr (tallyFinish s)
         \<and> distinct (modes (tallyFinish s))
         \<and> set (modes (tallyFinish s)) = set (modes s)
         \<and> sorted_wrt (<) (map (firstOccurrence (modes s)) (modes (tallyFinish s)))"
  using assms
  by (simp add: tally_def tallyFinish_fields distinct_uniqueModes set_uniqueModes uniqueModes_order)

text \<open>At \<open>rentWalkBus\<close>, where \<open>walk\<close> and \<open>bus\<close> are pushed twice.\<close>

theorem tally_modes_unique_witness:
  "tallyAccumulate DEFAULT_RATES rentWalkBus = Inr rentWalkBusAccumulated
   \<and> modes rentWalkBusAccumulated = [''bicycle_rent'', ''walk'', ''walk'', ''bus'', ''bus'']
   \<and> tally DEFAULT_RATES rentWalkBus = Inr (tallyFinish rentWalkBusAccumulated)
   \<and> modes (tallyFinish rentWalkBusAccumulated) = [''bicycle_rent'', ''walk'', ''bus'']
   \<and> distinct (modes (tallyFinish rentWalkBusAccumulated))"
proof -
  have m: "modes (tallyFinish rentWalkBusAccumulated) = [''bicycle_rent'', ''walk'', ''bus'']"
    by (simp add: rentWalkBusAccumulated_def tallyFinish_def uniqueModes_def uniqueStep_def
        Let_def)
  from tally_modes_unique [OF rentWalkBus_accumulate] show ?thesis
    using m rentWalkBus_accumulate by (simp add: rentWalkBusAccumulated_def)
qed

subsection \<open>Legs without street edges\<close>

text \<open>
  C10. A first leg with a mode and no \<open>streetEdges\<close> changes the time only: no mode is
  pushed and no distance added. With an empty \<open>streetEdges\<close> array the mode is pushed
  (and \<open>walk\<close> after \<open>bicycle_rent\<close>) and the distances stay. So for an option with
  only such an access leg \<^verbatim>\<open>tally\<close> returns no modes and no walk calories in the
  first case, and the pushed modes with zero distances in the second.
\<close>

theorem leg_without_streetEdges:
  assumes "leg_mode l = Some m"
  shows "(streetEdges l = None \<longrightarrow>
            tallyLeg (Some (l # ls)) o1 = Inr (o1\<lparr>time := time o1 + leg_time l\<rparr>))
       \<and> (streetEdges l = Some [] \<longrightarrow>
            tallyLeg (Some (l # ls)) o1
              = Inr (o1\<lparr>modes := modes o1 @ pushedModes (toLowerCase m),
                        time := time o1 + leg_time l\<rparr>))
       \<and> (streetEdges l = None \<and> access o1 = Some (l # ls) \<and> egress o1 = None
            \<and> transit o1 = None \<longrightarrow>
            (\<exists>t. tally r o1 = Inr t \<and> modes t = [] \<and> time t = leg_time l
                 \<and> walkDistance t = 0 \<and> bikeDistance t = 0 \<and> driveDistance t = 0
                 \<and> walkCalories t = 0))
       \<and> (streetEdges l = Some [] \<and> access o1 = Some (l # ls) \<and> egress o1 = None
            \<and> transit o1 = None \<longrightarrow>
            (\<exists>t. tally r o1 = Inr t \<and> modes t = pushedModes (toLowerCase m)
                 \<and> time t = leg_time l
                 \<and> walkDistance t = 0 \<and> bikeDistance t = 0 \<and> driveDistance t = 0
                 \<and> walkCalories t = 0))"
proof -
  have a: "tallyLeg (Some (l # ls)) o1 = Inr (o1\<lparr>time := time o1 + leg_time l\<rparr>)"
    if "streetEdges l = None" for o1
    using assms that by (simp add: tallyLeg_def addStreetEdges_def)
  have b: "tallyLeg (Some (l # ls)) o1
              = Inr (o1\<lparr>modes := modes o1 @ pushedModes (toLowerCase m),
                        time := time o1 + leg_time l\<rparr>)"
    if "streetEdges l = Some []" for o1
    using assms that
    by (simp add: tallyLeg_def addStreetEdges_def streetEdgeDistanceForMode_def Let_def
        pushedModes_def)
  have c: "\<exists>t. tally r o1 = Inr t \<and> modes t = [] \<and> time t = leg_time l
                 \<and> walkDistance t = 0 \<and> bikeDistance t = 0 \<and> driveDistance t = 0
                 \<and> walkCalories t = 0"
    if "streetEdges l = None" "access o1 = Some (l # ls)" "egress o1 = None" "transit o1 = None"
    using that a [OF that(1), of "tallyDefaults o1"]
    by (simp add: tally_def tallyAccumulate_def Let_def tallyTransit_def tallyWalkCalories_def
        tallyBikeCalories_def tallyCar_def tallyFinish_def uniqueModes_def
        tallyDefaults_def tallyLeg_def)
  have d: "\<exists>t. tally r o1 = Inr t \<and> modes t = pushedModes (toLowerCase m)
                 \<and> time t = leg_time l
                 \<and> walkDistance t = 0 \<and> bikeDistance t = 0 \<and> driveDistance t = 0
                 \<and> walkCalories t = 0"
    if "streetEdges l = Some []" "access o1 = Some (l # ls)" "egress o1 = None" "transit o1 = None"
    using that b [OF that(1), of "tallyDefaults o1"]
    by (simp add: tally_def tallyAccumulate_def Let_def tallyTransit_def tallyWalkCalories_def
        tallyBikeCalories_def tallyCar_def tallyFinish_def uniqueModes_def uniqueStep_def
        tallyDefaults_def tallyLeg_def caloriesBurned_def pushedModes_def)
  from a b c d show ?thesis by blast
qed

text \<open>At a walk leg without \<open>streetEdges\<close> and at one with an empty array.\<close>

theorem leg_without_streetEdges_witness:
  "leg_mode (walkLeg 360) = Some ''walk'' \<and> streetEdges (walkLeg 360) = None
   \<and> tallyLeg (Some [walkLeg 360]) (tallyDefaults walkNoEdges) = Inr walkNoEdgesTallied
   \<and> (\<exists>t. tally DEFAULT_RATES walkNoEdges = Inr t \<and> modes t = [] \<and> time t = 360
          \<and> walkDistance t = 0 \<and> bikeDistance t = 0 \<and> driveDistance t = 0
          \<and> walkCalories t = 0)
   \<and> leg_mode emptyEdgesLeg = Some ''WALK'' \<and> streetEdges emptyEdgesLeg = Some []
   \<and> tallyLeg (Some [emptyEdgesLeg]) (tallyDefaults walkEmptyEdges)
       = Inr (walkEmptyEdges\<lparr>modes := [''walk''], time := 360\<rparr>)
   \<and> (\<exists>t. tally DEFAULT_RATES walkEmptyEdges = Inr t \<and> modes t = [''walk''] \<and> time t = 360
          \<and> walkDistance t = 0 \<and> bikeDistance t = 0 \<and> driveDistance t = 0
          \<and> walkCalories t = 0)"
proof -
  have m1: "leg_mode (walkLeg 360) = Some ''walk''"
    by (simp add: walkLeg_def)
  have m2: "leg_mode emptyEdgesLeg = Some ''WALK''"
    by (simp add: emptyEdgesLeg_def)
  have low: "toLowerCase ''WALK'' = ''walk''" "pushedModes ''walk'' = [''walk'']"
    by (simp_all add: toLowerCase_def pushedModes_def)
  have t1: "tallyLeg (Some [walkLeg 360]) (tallyDefaults walkNoEdges) = Inr walkNoEdgesTallied"
    using leg_without_streetEdges [OF m1, of "[]" "tallyDefaults walkNoEdges" DEFAULT_RATES]
    by (simp add: walkLeg_def walkNoEdges_def walkNoEdgesTallied_def rawOption_def
        tallyDefaults_def)
  have t2: "\<exists>t. tally DEFAULT_RATES walkNoEdges = Inr t \<and> modes t = [] \<and> time t = 360
          \<and> walkDistance t = 0 \<and> bikeDistance t = 0 \<and> driveDistance t = 0
          \<and> walkCalories t = 0"
    using leg_without_streetEdges [OF m1, of "[]" walkNoEdges DEFAULT_RATES]
    by (simp add: walkLeg_def walkNoEdges_def rawOption_def)
  have t3: "tallyLeg (Some [emptyEdgesLeg]) (tallyDefaults walkEmptyEdges)
       = Inr (walkEmptyEdges\<lparr>modes := [''walk''], time := 360\<rparr>)"
    using leg_without_streetEdges [OF m2, of "[]" "tallyDefaults walkEmptyEdges" DEFAULT_RATES]
    by (simp add: low emptyEdgesLeg_def walkEmptyEdges_def rawOption_def tallyDefaults_def)
  have t4: "\<exists>t. tally DEFAULT_RATES walkEmptyEdges = Inr t \<and> modes t = [''walk''] \<and> time t = 360
          \<and> walkDistance t = 0 \<and> bikeDistance t = 0 \<and> driveDistance t = 0
          \<and> walkCalories t = 0"
    using leg_without_streetEdges [OF m2, of "[]" walkEmptyEdges DEFAULT_RATES]
    by (simp add: low emptyEdgesLeg_def walkEmptyEdges_def rawOption_def)
  from m1 m2 t1 t2 t3 t4 show ?thesis
    by (simp add: walkLeg_def emptyEdgesLeg_def)
qed

end
